theory Spec2Isabelle
  imports Complex_Main "HOL-Library.Product_Lexorder" "HOL-Library.Char_ord"
    "HOL-Library.List_Lexorder"
begin

section \<open>Python strings\<close>

text \<open>
  Texts are modelled as \<open>string\<close> (lists of 8-bit characters), that is, the ASCII
  fragment of Python's \<open>str\<close>: \<open>lower\<close> maps \<open>A\<close>..\<open>Z\<close> to \<open>a\<close>..\<open>z\<close> and leaves every
  other character alone, and the whitespace of \<open>strip\<close> and of the regular expression
  class \<open>\s\<close> is tab, line feed, vertical tab, form feed, carriage return, the four
  separators 0x1C..0x1F and the blank.
\<close>

definition upper_lower_table :: "(char \<times> char) list" where
  "upper_lower_table = zip ''ABCDEFGHIJKLMNOPQRSTUVWXYZ'' ''abcdefghijklmnopqrstuvwxyz''"

definition lower_char :: "char \<Rightarrow> char" where
  "lower_char c = (case map_of upper_lower_table c of Some l \<Rightarrow> l | None \<Rightarrow> c)"

definition py_lower :: "string \<Rightarrow> string" where
  "py_lower s = map lower_char s"

definition is_space :: "char \<Rightarrow> bool" where
  "is_space c = (c \<in> set [CHR 0x09, CHR 0x0A, CHR 0x0B, CHR 0x0C, CHR 0x0D,
                            CHR 0x1C, CHR 0x1D, CHR 0x1E, CHR 0x1F, CHR 0x20])"

definition py_strip :: "string \<Rightarrow> string" where
  "py_strip s = rev (dropWhile is_space (rev (dropWhile is_space s)))"

text \<open>\<open>s.replace(c, '')\<close> for a one-character \<open>c\<close>.\<close>

definition replace_char :: "char \<Rightarrow> string \<Rightarrow> string" where
  "replace_char c s = filter (\<lambda>x. x \<noteq> c) s"

fun starts_with :: "string \<Rightarrow> string \<Rightarrow> bool" where
  "starts_with [] s = True"
| "starts_with (p # ps) [] = False"
| "starts_with (p # ps) (c # cs) = (p = c \<and> starts_with ps cs)"

text \<open>\<open>text.find(kw)\<close>: the index of the first occurrence, \<open>None\<close> for Python's \<open>-1\<close>.\<close>

fun py_find :: "string \<Rightarrow> string \<Rightarrow> nat option" where
  "py_find [] kw = (if kw = [] then Some 0 else None)"
| "py_find (c # cs) kw =
     (if starts_with kw (c # cs) then Some 0 else map_option Suc (py_find cs kw))"

text \<open>\<open>kw in text\<close>.\<close>

definition py_in :: "string \<Rightarrow> string \<Rightarrow> bool" where
  "py_in kw text = (py_find text kw \<noteq> None)"

text \<open>\<open>text[start:end]\<close> for non-negative bounds.\<close>

definition py_slice :: "nat \<Rightarrow> nat \<Rightarrow> 'a list \<Rightarrow> 'a list" where
  "py_slice start end xs = take (end - start) (drop start xs)"


section \<open>Resume parser: text extraction\<close>

text \<open>
  The two PDF libraries and the UTF-8 codec are not part of the repository; the model
  takes them as an environment. A library that cannot be imported is \<open>None\<close>. Opening
  a document either raises (with the message \<open>str(e)\<close>) or gives the pages, and
  \<open>page.extract_text()\<close> gives a text, gives \<open>None\<close>, or raises.
\<close>

type_synonym bytes = "char list"

datatype page_result = PageText string | PageNone | PageRaises

datatype pdf_open_result = Opened "page_result list" | OpenRaises string

record pdf_env =
  pdfplumber_lib :: "(bytes \<Rightarrow> pdf_open_result) option"
  pypdf2_lib :: "(bytes \<Rightarrow> pdf_open_result) option"
  utf8_decode_ignore :: "bytes \<Rightarrow> string"

definition MAX_PDF_BYTES :: nat where
  "MAX_PDF_BYTES = 5 * 1024 * 1024"

text \<open>
  The module-level \<open>PDF_LIBRARY\<close>: pdfplumber if it imports, else PyPDF2 if that imports,
  else \<open>None\<close>; the parser records \<open>PDF_LIBRARY or "none"\<close>.
\<close>

definition PDF_LIBRARY :: "pdf_env \<Rightarrow> string option" where
  "PDF_LIBRARY env =
     (if pdfplumber_lib env \<noteq> None then Some ''pdfplumber''
      else if pypdf2_lib env \<noteq> None then Some ''PyPDF2''
      else None)"

definition parsing_library :: "pdf_env \<Rightarrow> string" where
  "parsing_library env = (case PDF_LIBRARY env of Some l \<Rightarrow> l | None \<Rightarrow> ''none'')"

text \<open>The local \<open>import\<close> followed by opening the document, inside the \<open>try\<close>.\<close>

definition run_library ::
  "(bytes \<Rightarrow> pdf_open_result) option \<Rightarrow> string \<Rightarrow> bytes \<Rightarrow> pdf_open_result" where
  "run_library lib name pdf_bytes =
     (case lib of
        None \<Rightarrow> OpenRaises (''No module named '' @ name)
      | Some open_pdf \<Rightarrow> open_pdf pdf_bytes)"

text \<open>
  The page loop: \<open>text = page.extract_text() or ""\<close>, appended when non-empty; a page
  that raises contributes nothing.
\<close>

fun collect_parts :: "page_result list \<Rightarrow> string list" where
  "collect_parts [] = []"
| "collect_parts (PageText t # ps) = (if t \<noteq> [] then t # collect_parts ps else collect_parts ps)"
| "collect_parts (PageNone # ps) = collect_parts ps"
| "collect_parts (PageRaises # ps) = collect_parts ps"

fun join_newline :: "string list \<Rightarrow> string" where
  "join_newline [] = []"
| "join_newline [p] = p"
| "join_newline (p # q # ps) = p @ CHR 0x0A # join_newline (q # ps)"

definition pages_text :: "page_result list \<Rightarrow> string" where
  "pages_text pages = py_strip (join_newline (collect_parts pages))"

definition pdfminer_error :: "string \<Rightarrow> bool" where
  "pdfminer_error msg =
     (let error_str = py_lower msg
      in py_in ''no /root'' error_str \<or> py_in ''pdfminer'' error_str
         \<or> py_in ''pdf structure'' error_str)"

text \<open>A stage of the fallback chain either returns from the function or falls through.\<close>

datatype stage = Returned "string \<times> string \<times> string option" | Fallthrough "string option"

text \<open>Strategy 1; falling through carries the value of \<open>parsing_note\<close>.\<close>

definition strategy1 :: "pdf_env \<Rightarrow> bytes \<Rightarrow> stage" where
  "strategy1 env pdf_bytes =
     (if parsing_library env = ''pdfplumber'' then
        (case run_library (pdfplumber_lib env) ''pdfplumber'' pdf_bytes of
           Opened pages \<Rightarrow>
             (let result = pages_text pages
              in if result \<noteq> [] then Returned (result, ''pdfplumber'', None)
                 else Fallthrough None)
         | OpenRaises e \<Rightarrow>
             (if pdfminer_error e then Fallthrough (Some ''pdfminer_failed_used_fallback'')
              else Fallthrough None))
      else Fallthrough None)"

definition strategy2 :: "pdf_env \<Rightarrow> bytes \<Rightarrow> string option \<Rightarrow> stage" where
  "strategy2 env pdf_bytes parsing_note =
     (if parsing_library env = ''PyPDF2'' \<or> parsing_note = Some ''pdfminer_failed_used_fallback''
      then
        (case run_library (pypdf2_lib env) ''PyPDF2'' pdf_bytes of
           Opened pages \<Rightarrow>
             (let result = pages_text pages
              in if result \<noteq> [] then
                   (if parsing_note = Some ''pdfminer_failed_used_fallback''
                    then Returned (result, ''pypdf_fallback'', parsing_note)
                    else Returned (result, ''PyPDF2'', None))
                 else Fallthrough parsing_note)
         | OpenRaises e \<Rightarrow> Fallthrough parsing_note)
      else Fallthrough parsing_note)"

definition strategy3 :: "pdf_env \<Rightarrow> bytes \<Rightarrow> string option \<Rightarrow> stage" where
  "strategy3 env pdf_bytes parsing_note =
     (let decoded = py_strip (utf8_decode_ignore env pdf_bytes)
      in if decoded \<noteq> [] \<and> length decoded > 30 then
           (let final_note = (case parsing_note of Some n \<Rightarrow> n | None \<Rightarrow> ''text_fallback'')
            in Returned (decoded, ''text_fallback'', Some final_note))
         else Fallthrough parsing_note)"

text \<open>\<open>extract_text_from_pdf\<close>: \<open>(raw_text, parsing_library_used, parsing_note)\<close>.\<close>

definition extract_text_from_pdf :: "pdf_env \<Rightarrow> bytes \<Rightarrow> string \<times> string \<times> string option" where
  "extract_text_from_pdf env pdf_bytes0 =
     (if pdf_bytes0 = [] then ([], ''none'', Some ''empty_input'')
      else
        let pdf_bytes = (if length pdf_bytes0 > MAX_PDF_BYTES
                         then take MAX_PDF_BYTES pdf_bytes0 else pdf_bytes0)
        in case strategy1 env pdf_bytes of
             Returned r \<Rightarrow> r
           | Fallthrough note1 \<Rightarrow>
               (case strategy2 env pdf_bytes note1 of
                  Returned r \<Rightarrow> r
                | Fallthrough note2 \<Rightarrow>
                    (case strategy3 env pdf_bytes note2 of
                       Returned r \<Rightarrow> r
                     | Fallthrough note3 \<Rightarrow> ([], ''none'', Some ''no_text_extracted''))))"


section \<open>Resume parser: field extractors\<close>

subsection \<open>Roles\<close>



subsection \<open>Experience years\<close>

text \<open>
  The pattern \<open>(\d{1,2})\+?\s*(?:years|yrs)\s+(?:of\s+)?experience\<close>, matched at the
  head of a string. Each matcher returns the rest of the string after its part of the
  pattern. The quantifiers are greedy; where giving back characters could let the rest
  of the pattern match, the alternative is tried as the regular expression engine does.
\<close>

definition is_digit :: "char \<Rightarrow> bool" where
  "is_digit c = (c \<in> set ''0123456789'')"

text \<open>\<open>\s+\<close>: what follows it in the pattern is a letter, so only the longest run can match.\<close>

definition match_spaces1 :: "string \<Rightarrow> string option" where
  "match_spaces1 s =
     (case s of [] \<Rightarrow> None
      | c # cs \<Rightarrow> if is_space c then Some (dropWhile is_space cs) else None)"

definition match_experience :: "string \<Rightarrow> string option" where
  "match_experience s = (if starts_with ''experience'' s then Some (drop 10 s) else None)"

text \<open>\<open>(?:of\s+)?experience\<close>: with the optional group first, without it otherwise.\<close>

definition match_of_experience :: "string \<Rightarrow> string option" where
  "match_of_experience s =
     (case (if starts_with ''of'' s then match_spaces1 (drop 2 s) else None) of
        Some r \<Rightarrow> (case match_experience r of Some r' \<Rightarrow> Some r' | None \<Rightarrow> match_experience s)
      | None \<Rightarrow> match_experience s)"

text \<open>\<open>(?:years|yrs)\s+(?:of\s+)?experience\<close>\<close>

definition match_years_tail :: "string \<Rightarrow> string option" where
  "match_years_tail s =
     (case (if starts_with ''years'' s then Some (drop 5 s)
            else if starts_with ''yrs'' s then Some (drop 3 s) else None) of
        None \<Rightarrow> None
      | Some r \<Rightarrow> (case match_spaces1 r of None \<Rightarrow> None | Some r2 \<Rightarrow> match_of_experience r2))"

text \<open>\<open>\+?\s*\<close> and the rest: first with the plus sign consumed, then without.\<close>

definition match_after_digits :: "string \<Rightarrow> string option" where
  "match_after_digits s =
     (case (case s of c # cs \<Rightarrow> if c = CHR ''+'' then match_years_tail (dropWhile is_space cs)
                                 else None
                    | [] \<Rightarrow> None) of
        Some r \<Rightarrow> Some r
      | None \<Rightarrow> match_years_tail (dropWhile is_space s))"

text \<open>
  The whole pattern at the head of \<open>s\<close>: the captured digits and the rest of the string
  after the match. \<open>\d{1,2}\<close> takes two digits when it can and falls back to one.
\<close>

definition match_years_at :: "string \<Rightarrow> (string \<times> string) option" where
  "match_years_at s =
     (let ds = takeWhile is_digit (take 2 s)
      in if ds = [] then None
         else
           (case match_after_digits (drop (length ds) s) of
              Some r \<Rightarrow> Some (ds, r)
            | None \<Rightarrow>
                (if length ds = 2 then
                   (case match_after_digits (drop 1 s) of
                      Some r \<Rightarrow> Some (take 1 ds, r)
                    | None \<Rightarrow> None)
                 else None)))"

text \<open>
  \<open>re.findall\<close>: scan from left to right, collect the group of every match, and resume
  after the end of a match. \<open>skip\<close> is the number of characters still covered by the
  last match.
\<close>

fun findall_years :: "nat \<Rightarrow> string \<Rightarrow> string list" where
  "findall_years skip [] = []"
| "findall_years skip (c # cs) =
     (if skip > 0 then findall_years (skip - 1) cs
      else
        (case match_years_at (c # cs) of
           Some (g, r) \<Rightarrow> g # findall_years (length cs - length r) cs
         | None \<Rightarrow> findall_years 0 cs))"

definition digit_value :: "char \<Rightarrow> nat" where
  "digit_value c =
     (case map_of (zip ''0123456789'' [0, 1, 2, 3, 4, 5, 6, 7, 8, 9]) c of
        Some d \<Rightarrow> d | None \<Rightarrow> 0)"

text \<open>\<open>int(m)\<close> for a string of decimal digits.\<close>

definition py_int :: "string \<Rightarrow> int" where
  "py_int ds = int (foldl (\<lambda>a c. 10 * a + digit_value c) 0 ds)"

text \<open>\<open>if matches: return max(int(m) for m in matches)\<close>, else 0.\<close>

definition extract_experience_years :: "string \<Rightarrow> int" where
  "extract_experience_years text =
     (let matches = findall_years 0 (py_lower text);
          nums = map py_int matches
      in case nums of [] \<Rightarrow> 0 | n # ns \<Rightarrow> foldl max n ns)"

subsection \<open>Hackathon achievements\<close>

definition HACKATHON_KEYWORDS :: "string list" where
  "HACKATHON_KEYWORDS = [''hackathon'', ''devpost'', ''mlh'', ''challenge'', ''competition'']"

definition is_word_char :: "char \<Rightarrow> bool" where
  "is_word_char c =
     (c \<in> set ''abcdefghijklmnopqrstuvwxyzABCDEFGHIJKLMNOPQRSTUVWXYZ0123456789_'')"

text \<open>
  \<open>re.search(r"\b(a1|...|an)\b", s)\<close> for literal alternatives: an alternative matches
  at a position when the subject continues with it and both ends are word boundaries,
  that is, exactly one of the two characters around each end is a word character (the
  start and the end of the subject count as non-word). \<open>prev_word\<close> tells whether the
  character before the position is a word character.
\<close>

definition alt_matches_at :: "bool \<Rightarrow> string \<Rightarrow> string \<Rightarrow> bool" where
  "alt_matches_at prev_word alt s =
     (alt \<noteq> [] \<and> starts_with alt s
      \<and> prev_word \<noteq> is_word_char (hd alt)
      \<and> is_word_char (last alt)
          \<noteq> (case drop (length alt) s of [] \<Rightarrow> False | c # cs \<Rightarrow> is_word_char c))"

fun search_from :: "string list \<Rightarrow> bool \<Rightarrow> string \<Rightarrow> bool" where
  "search_from alts prev_word [] = False"
| "search_from alts prev_word (c # cs) =
     (list_ex (\<lambda>alt. alt_matches_at prev_word alt (c # cs)) alts
      \<or> search_from alts (is_word_char c) cs)"

definition re_search_words :: "string list \<Rightarrow> string \<Rightarrow> bool" where
  "re_search_words alts s = search_from alts False s"

datatype placement = First | Second | Third | Finalist | Participant

definition classify_snippet :: "string \<Rightarrow> placement" where
  "classify_snippet snippet =
     (if re_search_words [''winner'', ''1st'', ''first'', ''champion'', ''gold''] snippet
        then First
      else if re_search_words [''runner up'', ''runner-up'', ''2nd'', ''second'', ''silver''] snippet
        then Second
      else if re_search_words [''3rd'', ''third'', ''bronze''] snippet
        then Third
      else Participant)"

record achievement =
  snippet_context :: string
  placement :: placement

record hackathon_result =
  total_hackathons :: nat
  achievements :: "achievement list"
  wins_breakdown :: "placement \<Rightarrow> nat"
  hackathon_score :: nat
  has_hackathon_experience :: bool

text \<open>The snippet \<open>text[max(0, idx - 120) : min(len(text_lower), idx + 120)]\<close>.\<close>

definition snippet_at :: "string \<Rightarrow> nat \<Rightarrow> string" where
  "snippet_at text idx =
     (let start = (if idx < 120 then 0 else idx - 120);
          end = min (length (py_lower text)) (idx + 120)
      in py_slice start end text)"

text \<open>One round of the loop over the keywords; the state is \<open>(found, wins)\<close>.\<close>

definition hackathon_step ::
  "string \<Rightarrow> achievement list \<times> (placement \<Rightarrow> nat) \<Rightarrow> string
     \<Rightarrow> achievement list \<times> (placement \<Rightarrow> nat)" where
  "hackathon_step text st kw =
     (let text_lower = py_lower text; found = fst st; wins = snd st
      in if py_in kw text_lower then
           (case py_find text_lower kw of
              None \<Rightarrow> st
            | Some idx \<Rightarrow>
                (let snippet = snippet_at text idx;
                     p = classify_snippet snippet
                 in (found @ [\<lparr>snippet_context = take 200 snippet, placement = p\<rparr>],
                     wins(p := wins p + 1))))
         else st)"

definition extract_hackathon_wins :: "string \<Rightarrow> hackathon_result" where
  "extract_hackathon_wins text =
     (let st = foldl (hackathon_step text) ([], \<lambda>p. 0) HACKATHON_KEYWORDS;
          found = fst st; wins = snd st;
          score = wins First * 10 + wins Second * 7 + wins Third * 5 + wins Finalist * 3
                  + wins Participant
      in \<lparr>total_hackathons = length found, achievements = found, wins_breakdown = wins,
          hackathon_score = score, has_hackathon_experience = (length found > 0)\<rparr>)"


section \<open>Resume parser: the entry point\<close>

text \<open>
  The extractors for contact data, name, skills, education and work history are
  regular-expression searches whose results only fill fields of the profile; they are
  parameters of the model.
\<close>

record contact_info =
  email :: "string option"
  phone :: "string option"
  github :: "string option"
  linkedin :: "string option"


record profile =
  name :: string
  contact :: contact_info
  skills_by_category :: "(string \<times> string list) list"
  all_skills :: "string list"
  roles :: "string list"
  experience_years :: int
  education :: "(string \<times> string) list"
  work_experience :: "string list"
  hackathons :: hackathon_result
  raw_text_preview :: string
  raw_text :: string
  total_text_length :: nat
  parsing_library_used :: string
  parsing_note :: "string option"






section \<open>Matching engine: skill normalisation and overlap\<close>

text \<open>
  The module-level \<open>normalize_skill\<close> (the one the methods of \<open>MatchingEngine\<close> call):
  \<open>skill.lower().strip().replace('.', '').replace(' ', '').replace('-', '').replace('_', '')\<close>.
\<close>

definition normalize_skill :: "string \<Rightarrow> string" where
  "normalize_skill skill =
     replace_char CHR ''_'' (replace_char CHR ''-'' (replace_char CHR '' ''
       (replace_char CHR ''.'' (py_strip (py_lower skill)))))"

text \<open>
  A Python \<open>dict\<close> as an association list in insertion order; \<open>d[k] = v\<close> overwrites the
  value of a key that is present and appends a new key otherwise.
\<close>

fun dict_set :: "('k \<times> 'v) list \<Rightarrow> 'k \<Rightarrow> 'v \<Rightarrow> ('k \<times> 'v) list" where
  "dict_set [] k v = [(k, v)]"
| "dict_set ((k', v') # d) k v =
     (if k' = k then (k, v) # d else (k', v') # dict_set d k v)"

text \<open>\<open>{normalize_skill(s): s for s in skills}\<close>\<close>

definition skill_dict :: "string list \<Rightarrow> (string \<times> string) list" where
  "skill_dict skills = foldl (\<lambda>d s. dict_set d (normalize_skill s) s) [] skills"

text \<open>
  \<open>calculate_skill_overlap\<close>. The two key sets are Python sets; the order in which
  the lists \<open>shared\<close> and \<open>complementary\<close> enumerate them is not fixed by Python, the model
  lists them in dictionary order.
\<close>

definition calculate_skill_overlap ::
  "string list \<Rightarrow> string list \<Rightarrow> real \<times> string list \<times> string list" where
  "calculate_skill_overlap user_skills required_skills =
     (if required_skills = [] then (0.5, [], [])
      else
        let user_normalized = skill_dict user_skills;
            req_normalized = skill_dict required_skills;
            shared_keys = set (map fst user_normalized) \<inter> set (map fst req_normalized);
            comp_keys = set (map fst user_normalized) - set (map fst req_normalized);
            shared = map snd (filter (\<lambda>(k, v). k \<in> shared_keys) req_normalized);
            complementary = map snd (filter (\<lambda>(k, v). k \<in> comp_keys) user_normalized);
            overlap_ratio = real (card shared_keys) / real (length req_normalized);
            complementary_bonus = min (real (card comp_keys) * 0.05) 0.2;
            score = min (overlap_ratio + complementary_bonus) 1.0
        in (score, shared, complementary))"


section \<open>Embedding similarity\<close>

text \<open>
  Scores are Python floats; the model computes with real numbers, so rounding is not
  part of it. A vector is a list of reals. \<open>np.dot\<close> of two one-dimensional arrays of
  different lengths raises \<open>ValueError\<close>; \<open>np.linalg.norm\<close> is the Euclidean norm.
\<close>

datatype py_error = ValueError

definition np_dot :: "real list \<Rightarrow> real list \<Rightarrow> py_error + real" where
  "np_dot vec1 vec2 =
     (if length vec1 \<noteq> length vec2 then Inl ValueError
      else Inr (sum_list (map (\<lambda>(x, y). x * y) (zip vec1 vec2))))"

definition np_linalg_norm :: "real list \<Rightarrow> real" where
  "np_linalg_norm vec = sqrt (sum_list (map (\<lambda>x. x * x) vec))"

definition cosine_similarity :: "real list \<Rightarrow> real list \<Rightarrow> py_error + real" where
  "cosine_similarity vec1 vec2 =
     (case np_dot vec1 vec2 of
        Inl e \<Rightarrow> Inl e
      | Inr dot_product \<Rightarrow>
          (let norm1 = np_linalg_norm vec1; norm2 = np_linalg_norm vec2
           in if norm1 = 0 \<or> norm2 = 0 then Inr 0
              else Inr (dot_product / (norm1 * norm2))))"


section \<open>Matching engine: sub-scores\<close>

record weights =
  skill_overlap :: real
  embedding_similarity :: real
  role_match :: real
  experience_fit :: real
  hackathon_bonus :: real
  availability :: real

definition WEIGHTS :: weights where
  "WEIGHTS = \<lparr>skill_overlap = 0.45, embedding_similarity = 0.25, role_match = 0.15,
              experience_fit = 0.06, hackathon_bonus = 0.05, availability = 0.04\<rparr>"

text \<open>\<open>calculate_embedding_score\<close>: any exception of the similarity gives 0.\<close>

definition calculate_embedding_score :: "real list option \<Rightarrow> real list option \<Rightarrow> real" where
  "calculate_embedding_score emb1 emb2 =
     (case emb1 of
        None \<Rightarrow> 0
      | Some e1 \<Rightarrow>
          (case emb2 of
             None \<Rightarrow> 0
           | Some e2 \<Rightarrow> (case cosine_similarity e1 e2 of Inr s \<Rightarrow> s | Inl err \<Rightarrow> 0)))"

text \<open>
  \<open>calculate_role_match\<close>; the list \<open>matched\<close> enumerates a Python set, the model lists
  it in the order of the user's roles.
\<close>

definition calculate_role_match :: "string list \<Rightarrow> string list \<Rightarrow> real \<times> string list" where
  "calculate_role_match user_roles required_roles =
     (if required_roles = [] then (1.0, [])
      else
        let user_set = set (map py_lower user_roles);
            req_set = set (map py_lower required_roles);
            matched = remdups (filter (\<lambda>r. r \<in> req_set) (map py_lower user_roles));
            ratio = (if req_set \<noteq> {} then real (length matched) / real (card req_set) else 0)
        in (ratio, matched))"

definition calculate_experience_fit :: "int \<Rightarrow> int \<Rightarrow> int \<Rightarrow> real" where
  "calculate_experience_fit user_exp required_exp_min required_exp_max =
     (if user_exp < required_exp_min then
        (let gap = required_exp_min - user_exp in max 0.5 (1.0 - real_of_int gap * 0.15))
      else if user_exp > required_exp_max then
        (let gap = user_exp - required_exp_max in max 0.7 (1.0 - real_of_int gap * 0.05))
      else 1.0)"

text \<open>Python truthiness of a value that is \<open>None\<close> or a string or a list.\<close>

definition truthy :: "'a list option \<Rightarrow> bool" where
  "truthy x = (case x of None \<Rightarrow> False | Some v \<Rightarrow> v \<noteq> [])"

definition calculate_availability_score :: "string option \<Rightarrow> string option \<Rightarrow> real" where
  "calculate_availability_score user_tz project_tz =
     (if \<not> truthy user_tz \<or> \<not> truthy project_tz then 1.0
      else if user_tz = project_tz then 1.0 else 0.8)"


section \<open>Matching engine: the final score and the ranking\<close>

text \<open>
  The two dictionaries, with the defaults of \<open>.get\<close> applied by whoever builds the
  record. \<open>user_hackathons\<close> stands for the achievement data a profile carries.
\<close>

record user_data =
  user_skills :: "string list"
  user_embedding :: "real list option"
  user_roles :: "string list"
  user_experience_years :: int
  user_timezone :: "string option"
  user_hackathons :: "hackathon_result option"

record project_data =
  project_id :: "string option"
  required_skills :: "string list"
  project_embedding :: "real list option"
  required_roles :: "string list"
  min_experience :: int
  max_experience :: int
  project_timezone :: "string option"

datatype reason =
    SkillsMatched nat nat
  | StrongSkillMatch
  | RoleFit "string list"
  | BonusSkills nat
  | ProfileSimilarity real

record Match =
  target_id :: string
  score :: real
  reasons :: "reason list"
  shared_skills :: "string list"
  complementary_skills :: "string list"

text \<open>The embedding sub-score of \<open>match_user_to_project\<close>: neutral 0.5 unless both sides
  carry a non-empty embedding.\<close>

definition embedding_subscore :: "user_data \<Rightarrow> project_data \<Rightarrow> real" where
  "embedding_subscore u p =
     (if truthy (user_embedding u) \<and> truthy (project_embedding p)
      then calculate_embedding_score (user_embedding u) (project_embedding p)
      else 0.5)"

text \<open>The weighted sum, before the boost.\<close>

definition weighted_sum :: "real \<Rightarrow> real \<Rightarrow> real \<Rightarrow> real \<Rightarrow> real \<Rightarrow> real" where
  "weighted_sum skill_score emb_score role_score exp_score avail_score =
     skill_score * skill_overlap WEIGHTS
     + emb_score * embedding_similarity WEIGHTS
     + role_score * role_match WEIGHTS
     + exp_score * experience_fit WEIGHTS
     + avail_score * availability WEIGHTS"

definition match_reasons ::
  "nat \<Rightarrow> nat \<Rightarrow> string list \<Rightarrow> string list \<Rightarrow> real \<Rightarrow> reason list" where
  "match_reasons shared_count required_count matched_roles complementary emb_score =
     (if shared_count > 0 then [SkillsMatched shared_count required_count] else [])
     @ (if real shared_count \<ge> max 1 (real required_count * 0.8) then [StrongSkillMatch] else [])
     @ (if matched_roles \<noteq> [] then [RoleFit matched_roles] else [])
     @ (if complementary \<noteq> [] \<and> length complementary \<ge> 3
        then [BonusSkills (length complementary)] else [])
     @ (if emb_score > 0.7 then [ProfileSimilarity emb_score] else [])"

definition match_user_to_project :: "user_data \<Rightarrow> project_data \<Rightarrow> Match" where
  "match_user_to_project u p =
     (let so = calculate_skill_overlap (user_skills u) (required_skills p);
          skill_score = fst so; shared = fst (snd so); complementary = snd (snd so);
          emb_score = embedding_subscore u p;
          rm = calculate_role_match (user_roles u) (required_roles p);
          role_score = fst rm; matched_roles = snd rm;
          exp_score = calculate_experience_fit (user_experience_years u)
                        (min_experience p) (max_experience p);
          avail_score = calculate_availability_score (user_timezone u) (project_timezone p);
          final_score0 = weighted_sum skill_score emb_score role_score exp_score avail_score;
          final_score1 = final_score0 + min (real (length shared) * 0.02) 0.12;
          final_score = max 0.0 (min 1.0 final_score1)
      in \<lparr>target_id = (case project_id p of Some i \<Rightarrow> i | None \<Rightarrow> ''unknown''),
          score = final_score,
          reasons = match_reasons (length shared) (length (required_skills p))
                      matched_roles complementary emb_score,
          shared_skills = shared,
          complementary_skills = complementary\<rparr>)"

text \<open>
  \<open>list.sort(key=..., reverse=True)\<close>: Python reverses the list, sorts it stably in
  ascending order and reverses the result, so that equal keys keep their order.
\<close>

definition py_sort_reverse :: "('a \<Rightarrow> 'k::linorder) \<Rightarrow> 'a list \<Rightarrow> 'a list" where
  "py_sort_reverse key xs = rev (sort_key key (rev xs))"

text \<open>\<open>xs[:k]\<close>: a negative \<open>k\<close> counts from the end.\<close>

definition py_slice_to :: "int \<Rightarrow> 'a list \<Rightarrow> 'a list" where
  "py_slice_to k xs =
     (if k \<ge> 0 then take (nat k) xs else take (nat (int (length xs) + k)) xs)"

definition rank_key :: "Match \<Rightarrow> real \<times> nat" where
  "rank_key mm = (score mm, (if shared_skills mm \<noteq> [] then length (shared_skills mm) else 0))"

text \<open>
  \<open>rank_candidates\<close>. The \<open>try\<close> around each match drops a candidate whose match
  raises; on records of the types above \<open>match_user_to_project\<close> is total, so every
  candidate contributes a match.
\<close>

definition rank_matches :: "Match list \<Rightarrow> int \<Rightarrow> Match list" where
  "rank_matches matches top_k = py_slice_to top_k (py_sort_reverse rank_key matches)"

definition rank_candidates :: "user_data list \<Rightarrow> project_data \<Rightarrow> int \<Rightarrow> Match list" where
  "rank_candidates candidates project top_k =
     rank_matches (map (\<lambda>candidate. match_user_to_project candidate project) candidates) top_k"


section \<open>Notions used by the claims, and example inputs\<close>

text \<open>The text a PDF library yields for a document: empty when it is missing, raises
  or finds no text.\<close>

definition decoder_text :: "(bytes \<Rightarrow> pdf_open_result) option \<Rightarrow> bytes \<Rightarrow> string" where
  "decoder_text lib pdf_bytes =
     (case lib of
        None \<Rightarrow> []
      | Some open_pdf \<Rightarrow>
          (case open_pdf pdf_bytes of Opened pages \<Rightarrow> pages_text pages | OpenRaises e \<Rightarrow> []))"

text \<open>Whether pdfplumber raised one of the errors that send the document to PyPDF2.\<close>

definition primary_structure_error :: "pdf_env \<Rightarrow> bytes \<Rightarrow> bool" where
  "primary_structure_error env pdf_bytes =
     (case pdfplumber_lib env of
        None \<Rightarrow> False
      | Some open_pdf \<Rightarrow>
          (case open_pdf pdf_bytes of Opened pages \<Rightarrow> False | OpenRaises e \<Rightarrow> pdfminer_error e))"

text \<open>Whether strategy 2 runs PyPDF2 at all.\<close>

definition secondary_tried :: "pdf_env \<Rightarrow> bytes \<Rightarrow> bool" where
  "secondary_tried env pdf_bytes =
     ((pdfplumber_lib env = None \<and> pypdf2_lib env \<noteq> None)
      \<or> primary_structure_error env pdf_bytes)"

text \<open>What each stage finds in a document, after the truncation to the size limit.\<close>

definition primary_text :: "pdf_env \<Rightarrow> bytes \<Rightarrow> string" where
  "primary_text env pdf_bytes = decoder_text (pdfplumber_lib env) (take MAX_PDF_BYTES pdf_bytes)"

definition secondary_text :: "pdf_env \<Rightarrow> bytes \<Rightarrow> string" where
  "secondary_text env pdf_bytes = decoder_text (pypdf2_lib env) (take MAX_PDF_BYTES pdf_bytes)"

definition plain_text :: "pdf_env \<Rightarrow> bytes \<Rightarrow> string" where
  "plain_text env pdf_bytes = py_strip (utf8_decode_ignore env (take MAX_PDF_BYTES pdf_bytes))"

definition secondary_runs :: "pdf_env \<Rightarrow> bytes \<Rightarrow> bool" where
  "secondary_runs env pdf_bytes = secondary_tried env (take MAX_PDF_BYTES pdf_bytes)"

definition structure_error :: "pdf_env \<Rightarrow> bytes \<Rightarrow> bool" where
  "structure_error env pdf_bytes = primary_structure_error env (take MAX_PDF_BYTES pdf_bytes)"

text \<open>pdfplumber reads the document.\<close>

definition env_primary_ok :: pdf_env where
  "env_primary_ok =
     \<lparr>pdfplumber_lib = Some (\<lambda>b. Opened [PageText ''Jane Roe'', PageNone, PageText ''Python'']),
      pypdf2_lib = None,
      utf8_decode_ignore = (\<lambda>b. b)\<rparr>"

text \<open>pdfplumber installed and failing with an error that is not a structure error;
  PyPDF2 installed; ASCII input, which UTF-8 decodes to itself.\<close>

definition env_primary_raises :: pdf_env where
  "env_primary_raises =
     \<lparr>pdfplumber_lib = Some (\<lambda>b. OpenRaises ''unexpected EOF''),
      pypdf2_lib = Some (\<lambda>b. Opened [PageText ''text found by the secondary decoder'']),
      utf8_decode_ignore = (\<lambda>b. b)\<rparr>"

text \<open>pdfplumber opens the document and finds no text; PyPDF2 would find some.\<close>

definition env_primary_empty :: pdf_env where
  "env_primary_empty =
     \<lparr>pdfplumber_lib = Some (\<lambda>b. Opened [PageNone, PageRaises, PageText []]),
      pypdf2_lib = Some (\<lambda>b. Opened [PageText ''text found by the secondary decoder'']),
      utf8_decode_ignore = (\<lambda>b. b)\<rparr>"

text \<open>pdfplumber fails with a pdfminer error, PyPDF2 recovers the text.\<close>

definition env_pdfminer_fails :: pdf_env where
  "env_pdfminer_fails =
     \<lparr>pdfplumber_lib = Some (\<lambda>b. OpenRaises ''PDFSyntaxError: No /Root object!''),
      pypdf2_lib = Some (\<lambda>b. Opened [PageText ''Jane Roe'', PageRaises, PageText ''Python'']),
      utf8_decode_ignore = (\<lambda>b. b)\<rparr>"

definition bytes30 :: bytes where
  "bytes30 = ''abcdefghijklmnopqrstuvwxyz0123''"

definition bytes31 :: bytes where
  "bytes31 = ''abcdefghijklmnopqrstuvwxyz01234''"






text \<open>The dot product of two vectors of the same length.\<close>

definition dot_list :: "real list \<Rightarrow> real list \<Rightarrow> real" where
  "dot_list a b = sum_list (map (\<lambda>(x, y). x * y) (zip a b))"

text \<open>Scenario C of the specification: a subject with one skill and a target that
  requires nothing.\<close>

definition user_python :: user_data where
  "user_python =
     \<lparr>user_skills = [''python''], user_embedding = None, user_roles = [],
      user_experience_years = 0, user_timezone = None, user_hackathons = None\<rparr>"

definition project_open :: project_data where
  "project_open =
     \<lparr>project_id = Some ''7'', required_skills = [], project_embedding = None,
      required_roles = [], min_experience = 0, max_experience = 10,
      project_timezone = None\<rparr>"

text \<open>The same subject with achievement data.\<close>

definition user_winner :: user_data where
  "user_winner =
     user_python\<lparr>user_hackathons :=
       Some \<lparr>total_hackathons = 1,
             achievements = [\<lparr>snippet_context = ''winner of the hackathon'', placement = First\<rparr>],
             wins_breakdown = (\<lambda>p. if p = First then 1 else 0),
             hackathon_score = 10, has_hackathon_experience = True\<rparr>\<rparr>"

text \<open>Scenario D of the specification: two matches with score 0.80, one with three
  shared skills and one with one; and a third match with a lower score.\<close>

definition match_three :: Match where
  "match_three =
     \<lparr>target_id = ''a'', score = 0.8, reasons = [],
      shared_skills = [''python'', ''react'', ''sql''], complementary_skills = []\<rparr>"

definition match_one :: Match where
  "match_one =
     \<lparr>target_id = ''b'', score = 0.8, reasons = [],
      shared_skills = [''python''], complementary_skills = []\<rparr>"

definition match_one_again :: Match where
  "match_one_again =
     \<lparr>target_id = ''c'', score = 0.8, reasons = [],
      shared_skills = [''docker''], complementary_skills = []\<rparr>"

text \<open>The order the ranking promises: a higher score first, and among equal scores the
  match with no fewer shared skills first.\<close>

definition ranks_before :: "Match \<Rightarrow> Match \<Rightarrow> bool" where
  "ranks_before a b =
     (score a > score b
      \<or> (score a = score b \<and> length (shared_skills a) \<ge> length (shared_skills b)))"

text \<open>The keywords that occur in a text, the window around the first occurrence of a
  keyword, and the placement read from that window.\<close>

definition keyword_hits :: "string \<Rightarrow> string list" where
  "keyword_hits text = filter (\<lambda>kw. py_in kw (py_lower text)) HACKATHON_KEYWORDS"

definition keyword_window :: "string \<Rightarrow> string \<Rightarrow> string" where
  "keyword_window text kw =
     (case py_find (py_lower text) kw of None \<Rightarrow> [] | Some idx \<Rightarrow> snippet_at text idx)"

definition keyword_placement :: "string \<Rightarrow> string \<Rightarrow> placement" where
  "keyword_placement text kw = classify_snippet (keyword_window text kw)"

definition keyword_achievement :: "string \<Rightarrow> string \<Rightarrow> achievement" where
  "keyword_achievement text kw =
     \<lparr>snippet_context = take 200 (keyword_window text kw),
      placement = keyword_placement text kw\<rparr>"

text \<open>
  A word of \<open>alts\<close> occurs in \<open>s\<close> between word boundaries: \<open>s\<close> is \<open>pre @ alt @ post\<close>,
  and on each side of \<open>alt\<close> exactly one of the two neighbouring characters is a word
  character, where a missing neighbour counts as a non-word character.
\<close>

definition occurs_as_word :: "string list \<Rightarrow> string \<Rightarrow> bool" where
  "occurs_as_word alts s =
     (\<exists>pre alt post. s = pre @ alt @ post \<and> alt \<in> set alts \<and> alt \<noteq> []
        \<and> (pre \<noteq> [] \<and> is_word_char (last pre)) \<noteq> is_word_char (hd alt)
        \<and> is_word_char (last alt) \<noteq> (post \<noteq> [] \<and> is_word_char (hd post)))"

definition text_second :: string where
  "text_second = ''Took 2nd place at the MLH Hackathon''"

text \<open>The groups of the matches of the experience pattern at every position of a
  string, overlapping or not.\<close>

fun matches_anywhere :: "string \<Rightarrow> string list" where
  "matches_anywhere [] = []"
| "matches_anywhere (c # cs) =
     (case match_years_at (c # cs) of Some (g, r) \<Rightarrow> [g] | None \<Rightarrow> []) @ matches_anywhere cs"

definition text_scenario_a :: string where
  "text_scenario_a = ''5 years of experience... 3 years of experience''"

text \<open>The number of required skills the subject shares, counted on normalised keys.\<close>

definition shared_key_count :: "string list \<Rightarrow> string list \<Rightarrow> nat" where
  "shared_key_count us rs =
     (if rs = [] then 0 else card (normalize_skill ` set us \<inter> normalize_skill ` set rs))"

text \<open>A target that requires the one skill of \<open>user_python\<close>.\<close>

definition project_python :: project_data where
  "project_python = project_open\<lparr>required_skills := [''python'']\<rparr>"

text \<open>A subject that meets every requirement of a target, with identical embeddings:
  the sum exceeds 1 and is clamped.\<close>

definition six_skills :: "string list" where
  "six_skills = [''python'', ''react'', ''sql'', ''docker'', ''aws'', ''java'']"

definition user_six :: user_data where
  "user_six =
     \<lparr>user_skills = six_skills, user_embedding = Some [3, 4], user_roles = [''backend''],
      user_experience_years = 3, user_timezone = Some ''UTC'', user_hackathons = None\<rparr>"

definition project_six :: project_data where
  "project_six =
     \<lparr>project_id = Some ''8'', required_skills = six_skills, project_embedding = Some [3, 4],
      required_roles = [''Backend''], min_experience = 2, max_experience = 5,
      project_timezone = Some ''UTC''\<rparr>"

text \<open>A subject that meets nothing, with the opposite embedding: the sum is negative
  and is clamped.\<close>

definition user_none :: user_data where
  "user_none =
     \<lparr>user_skills = [], user_embedding = Some [- 3, - 4], user_roles = [''frontend''],
      user_experience_years = 0, user_timezone = Some ''CET'', user_hackathons = None\<rparr>"

text \<open>A text whose placement word is capitalised, and the same text in lower case.\<close>

definition text_winner :: string where
  "text_winner = ''Winner of the Hackathon''"

definition text_winner_lower :: string where
  "text_winner_lower = ''winner of the hackathon''"

section \<open>Facts about dictionaries and normalisation\<close>

lemma dict_set_keys:
  "fst ` set (dict_set d k v) = insert k (fst ` set d)"
  by (induction d k v rule: dict_set.induct) auto

lemma dict_set_distinct:
  "distinct (map fst d) \<Longrightarrow> distinct (map fst (dict_set d k v))"
proof (induction d k v rule: dict_set.induct)
  case (1 k v)
  then show ?case by simp
next
  case (2 k' v' d k v)
  show ?case
  proof (cases "k' = k")
    case True
    with 2 show ?thesis by simp
  next
    case False
    from 2 False have "distinct (map fst (dict_set d k v))" by simp
    moreover from 2 False have "k' \<notin> fst ` set (dict_set d k v)"
      by (simp add: dict_set_keys)
    ultimately show ?thesis using False by simp
  qed
qed

lemma skill_dict_fold_keys:
  "fst ` set (foldl (\<lambda>d s. dict_set d (normalize_skill s) s) d0 skills)
     = fst ` set d0 \<union> normalize_skill ` set skills"
proof (induction skills arbitrary: d0)
  case Nil
  then show ?case by simp
next
  case (Cons s skills)
  show ?case by (simp add: Cons.IH dict_set_keys)
qed

lemma skill_dict_fold_distinct:
  "distinct (map fst d0) \<Longrightarrow>
     distinct (map fst (foldl (\<lambda>d s. dict_set d (normalize_skill s) s) d0 skills))"
proof (induction skills arbitrary: d0)
  case Nil
  then show ?case by simp
next
  case (Cons s skills)
  from Cons.prems have "distinct (map fst (dict_set d0 (normalize_skill s) s))"
    by (rule dict_set_distinct)
  then show ?case using Cons.IH by simp
qed

lemma skill_dict_keys: "fst ` set (skill_dict skills) = normalize_skill ` set skills"
  by (simp add: skill_dict_def skill_dict_fold_keys)

lemma skill_dict_distinct: "distinct (map fst (skill_dict skills))"
  by (simp add: skill_dict_def skill_dict_fold_distinct)

lemma skill_dict_length: "length (skill_dict skills) = card (normalize_skill ` set skills)"
proof -
  have "card (set (map fst (skill_dict skills))) = length (map fst (skill_dict skills))"
    using skill_dict_distinct by (rule distinct_card)
  then have "card (fst ` set (skill_dict skills)) = length (skill_dict skills)" by simp
  then show ?thesis by (simp only: skill_dict_keys)
qed

lemma distinct_keys_filter_card:
  "distinct (map fst d) \<Longrightarrow>
     length (filter (\<lambda>(k, v). k \<in> A) d) = card (set (map fst d) \<inter> A)"
proof (induction d)
  case Nil
  then show ?case by simp
next
  case (Cons kv d)
  obtain k v where kv: "kv = (k, v)" by (cases kv)
  from Cons.prems kv have notin: "k \<notin> set (map fst d)" and dist: "distinct (map fst d)"
    by auto
  have fin: "finite (set (map fst d) \<inter> A)" by simp
  show ?case
  proof (cases "k \<in> A")
    case True
    then have "set (map fst (kv # d)) \<inter> A = insert k (set (map fst d) \<inter> A)"
      using kv by auto
    moreover have "k \<notin> set (map fst d) \<inter> A" using notin by simp
    ultimately have "card (set (map fst (kv # d)) \<inter> A) = Suc (card (set (map fst d) \<inter> A))"
      using fin by simp
    with True kv Cons.IH [OF dist] show ?thesis by simp
  next
    case False
    then have "set (map fst (kv # d)) \<inter> A = set (map fst d) \<inter> A"
      using kv by auto
    with False kv Cons.IH [OF dist] show ?thesis by simp
  qed
qed

lemma lower_char_not_upper: "lower_char c \<notin> set ''ABCDEFGHIJKLMNOPQRSTUVWXYZ''"
  by (simp add: lower_char_def upper_lower_table_def)

lemma lower_char_idem: "lower_char (lower_char c) = lower_char c"
  by (simp add: lower_char_def upper_lower_table_def)

lemma py_lower_idem: "py_lower (py_lower s) = py_lower s"
  by (simp add: py_lower_def lower_char_idem)

section \<open>Facts about the skill overlap\<close>

lemma normalize_skill_filter:
  "normalize_skill s =
     filter (\<lambda>c. c \<notin> set ''. -_'') (py_strip (py_lower s))"
  by (auto simp add: normalize_skill_def replace_char_def intro!: filter_cong)

lemma py_strip_subset: "set (py_strip s) \<subseteq> set s"
proof -
  have "set (py_strip s) \<subseteq> set (dropWhile is_space s)"
    unfolding py_strip_def using set_dropWhileD by fastforce
  also have "\<dots> \<subseteq> set s" using set_dropWhileD by fastforce
  finally show ?thesis .
qed

lemma normalize_skill_chars:
  "c \<in> set (normalize_skill s) \<Longrightarrow>
     c \<notin> set ''ABCDEFGHIJKLMNOPQRSTUVWXYZ'' \<and> c \<notin> set ''. -_''"
proof -
  assume a: "c \<in> set (normalize_skill s)"
  then have 1: "c \<notin> set ''. -_''" and "c \<in> set (py_strip (py_lower s))"
    by (simp_all add: normalize_skill_filter)
  then have "c \<in> set (py_lower s)" using py_strip_subset by blast
  then obtain d where "c = lower_char d" by (auto simp: py_lower_def)
  then have "c \<notin> set ''ABCDEFGHIJKLMNOPQRSTUVWXYZ''" using lower_char_not_upper by simp
  with 1 show ?thesis by simp
qed

lemma skill_overlap_score:
  assumes "rs \<noteq> []"
  shows "fst (calculate_skill_overlap us rs) =
     min (real (card (normalize_skill ` set us \<inter> normalize_skill ` set rs))
            / real (card (normalize_skill ` set rs))
          + min (real (card (normalize_skill ` set us - normalize_skill ` set rs)) * 0.05) 0.2)
         1"
  using assms
  by (simp add: calculate_skill_overlap_def Let_def skill_dict_keys skill_dict_length)

lemma skill_overlap_lists:
  assumes "rs \<noteq> []"
  shows "length (fst (snd (calculate_skill_overlap us rs))) =
           card (normalize_skill ` set us \<inter> normalize_skill ` set rs)"
    and "length (snd (snd (calculate_skill_overlap us rs))) =
           card (normalize_skill ` set us - normalize_skill ` set rs)"
proof -
  let ?U = "normalize_skill ` set us" and ?R = "normalize_skill ` set rs"
  have "length (filter (\<lambda>(k, v). k \<in> ?U \<inter> ?R) (skill_dict rs))
          = card (set (map fst (skill_dict rs)) \<inter> (?U \<inter> ?R))"
    by (rule distinct_keys_filter_card [OF skill_dict_distinct])
  also have "\<dots> = card (?U \<inter> ?R)"
    by (simp add: skill_dict_keys Int_absorb1 Int_commute inf.absorb2)
  finally show "length (fst (snd (calculate_skill_overlap us rs))) = card (?U \<inter> ?R)"
    using assms by (simp add: calculate_skill_overlap_def Let_def skill_dict_keys)
  have "length (filter (\<lambda>(k, v). k \<in> ?U - ?R) (skill_dict us))
          = card (set (map fst (skill_dict us)) \<inter> (?U - ?R))"
    by (rule distinct_keys_filter_card [OF skill_dict_distinct])
  also have "\<dots> = card (?U - ?R)"
    by (simp add: skill_dict_keys Int_absorb1 Int_commute inf.absorb2)
  finally show "length (snd (snd (calculate_skill_overlap us rs))) = card (?U - ?R)"
    using assms by (simp add: calculate_skill_overlap_def Let_def skill_dict_keys)
qed

section \<open>Facts about the text extraction\<close>

lemma truncate_take:
  "(if length b > MAX_PDF_BYTES then take MAX_PDF_BYTES b else b) = take MAX_PDF_BYTES b"
  by simp

lemma strategy1_returned:
  "strategy1 env b = Returned (t, s, n) \<Longrightarrow>
     t \<noteq> [] \<and> s = ''pdfplumber'' \<and> n = None \<and> t = decoder_text (pdfplumber_lib env) b"
  by (auto simp: strategy1_def run_library_def decoder_text_def Let_def
      split: if_splits option.splits pdf_open_result.splits)

lemma strategy2_returned:
  "strategy2 env b pn = Returned (t, s, n) \<Longrightarrow>
     t \<noteq> [] \<and> t = decoder_text (pypdf2_lib env) b
     \<and> (if pn = Some ''pdfminer_failed_used_fallback''
         then s = ''pypdf_fallback'' \<and> n = pn else s = ''PyPDF2'' \<and> n = None)"
  by (auto simp: strategy2_def run_library_def decoder_text_def Let_def
      split: if_splits option.splits pdf_open_result.splits)

lemma strategy3_returned:
  "strategy3 env b pn = Returned (t, s, n) \<Longrightarrow>
     t \<noteq> [] \<and> length t > 30 \<and> t = py_strip (utf8_decode_ignore env b) \<and> s = ''text_fallback''
     \<and> n = Some (case pn of Some x \<Rightarrow> x | None \<Rightarrow> ''text_fallback'')"
  by (auto simp: strategy3_def Let_def split: if_splits)

lemma extract_cases:
  "extract_text_from_pdf env b = ([], ''none'', Some ''empty_input'')
   \<or> extract_text_from_pdf env b = ([], ''none'', Some ''no_text_extracted'')
   \<or> (\<exists>r. strategy1 env (take MAX_PDF_BYTES b) = Returned r \<and> extract_text_from_pdf env b = r)
   \<or> (\<exists>r pn. strategy2 env (take MAX_PDF_BYTES b) pn = Returned r \<and> extract_text_from_pdf env b = r)
   \<or> (\<exists>r pn. strategy3 env (take MAX_PDF_BYTES b) pn = Returned r \<and> extract_text_from_pdf env b = r)"
  unfolding extract_text_from_pdf_def Let_def truncate_take
  by (auto split: stage.splits)

lemma extract_invariant:
  "extract_text_from_pdf env b = (t, s, n) \<Longrightarrow>
     (s = ''none'') = (t = [])
     \<and> (t = [] \<longrightarrow> n = Some ''empty_input'' \<or> n = Some ''no_text_extracted'')
     \<and> (t \<noteq> [] \<longrightarrow> s \<in> {''pdfplumber'', ''PyPDF2'', ''pypdf_fallback'', ''text_fallback''})"
  using extract_cases [of env b]
  apply (elim disjE exE conjE)
      apply simp
     apply simp
  subgoal for r by (cases r) (auto dest!: strategy1_returned)
  subgoal for r pn by (cases r) (auto dest!: strategy2_returned split: if_splits)
  subgoal for r pn by (cases r) (auto dest!: strategy3_returned)
  done

lemma parsing_library_pdfplumber:
  "(parsing_library env = ''pdfplumber'') = (pdfplumber_lib env \<noteq> None)"
  by (simp add: parsing_library_def PDF_LIBRARY_def)

lemma parsing_library_pypdf2:
  "(parsing_library env = ''PyPDF2'') = (pdfplumber_lib env = None \<and> pypdf2_lib env \<noteq> None)"
  by (simp add: parsing_library_def PDF_LIBRARY_def)

lemma strategy1_eq:
  "strategy1 env b =
     (if decoder_text (pdfplumber_lib env) b \<noteq> []
      then Returned (decoder_text (pdfplumber_lib env) b, ''pdfplumber'', None)
      else Fallthrough (if primary_structure_error env b
                        then Some ''pdfminer_failed_used_fallback'' else None))"
  by (auto simp: strategy1_def parsing_library_pdfplumber run_library_def decoder_text_def
      primary_structure_error_def Let_def split: option.splits pdf_open_result.splits)

lemma strategy2_eq:
  "strategy2 env b (if primary_structure_error env b
                    then Some ''pdfminer_failed_used_fallback'' else None) =
     (if secondary_tried env b \<and> decoder_text (pypdf2_lib env) b \<noteq> []
      then Returned (decoder_text (pypdf2_lib env) b,
                     if primary_structure_error env b then ''pypdf_fallback'' else ''PyPDF2'',
                     if primary_structure_error env b
                     then Some ''pdfminer_failed_used_fallback'' else None)
      else Fallthrough (if primary_structure_error env b
                        then Some ''pdfminer_failed_used_fallback'' else None))"
  by (auto simp: strategy2_def parsing_library_pypdf2 run_library_def decoder_text_def
      secondary_tried_def Let_def split: option.splits pdf_open_result.splits)

lemma strategy3_eq:
  "strategy3 env b pn =
     (if length (py_strip (utf8_decode_ignore env b)) > 30
      then Returned (py_strip (utf8_decode_ignore env b), ''text_fallback'',
                     Some (case pn of Some n \<Rightarrow> n | None \<Rightarrow> ''text_fallback''))
      else Fallthrough pn)"
  by (auto simp: strategy3_def Let_def)

lemma extract_eq:
  "b \<noteq> [] \<Longrightarrow> extract_text_from_pdf env b =
     (if primary_text env b \<noteq> [] then (primary_text env b, ''pdfplumber'', None)
      else if secondary_runs env b \<and> secondary_text env b \<noteq> []
      then (secondary_text env b,
            if structure_error env b then ''pypdf_fallback'' else ''PyPDF2'',
            if structure_error env b then Some ''pdfminer_failed_used_fallback'' else None)
      else if length (plain_text env b) > 30
      then (plain_text env b, ''text_fallback'',
            Some (if structure_error env b then ''pdfminer_failed_used_fallback''
                  else ''text_fallback''))
      else ([], ''none'', Some ''no_text_extracted''))"
  unfolding extract_text_from_pdf_def Let_def truncate_take
  by (simp add: strategy1_eq strategy2_eq strategy3_eq primary_text_def secondary_text_def
      plain_text_def secondary_runs_def structure_error_def)


section \<open>The example inputs, evaluated\<close>

lemma extract_examples:
  "extract_text_from_pdf env_primary_ok ''%PDF-1.4'' = (''Jane Roe'' @ [CHR 0x0A] @ ''Python'', ''pdfplumber'', None)"
  "extract_text_from_pdf env_pdfminer_fails ''%PDF-1.4'' =
     (''Jane Roe'' @ [CHR 0x0A] @ ''Python'', ''pypdf_fallback'', Some ''pdfminer_failed_used_fallback'')"
  "extract_text_from_pdf env_primary_raises bytes31 = (bytes31, ''text_fallback'', Some ''text_fallback'')"
  "extract_text_from_pdf env_primary_raises bytes30 = ([], ''none'', Some ''no_text_extracted'')"
  "extract_text_from_pdf env_primary_empty ''%PDF-1.4'' = ([], ''none'', Some ''no_text_extracted'')"
  by (simp_all add: extract_text_from_pdf_def strategy1_def strategy2_def strategy3_def
      parsing_library_def PDF_LIBRARY_def run_library_def pages_text_def pdfminer_error_def
      py_in_def py_strip_def py_lower_def lower_char_def upper_lower_table_def is_space_def
      env_primary_ok_def env_pdfminer_fails_def env_primary_raises_def env_primary_empty_def
      bytes30_def bytes31_def MAX_PDF_BYTES_def Let_def)

lemma stage_examples:
  "primary_text env_primary_ok ''%PDF-1.4'' \<noteq> []"
  "primary_text env_pdfminer_fails ''%PDF-1.4'' = []"
  "secondary_runs env_pdfminer_fails ''%PDF-1.4''"
  "secondary_text env_pdfminer_fails ''%PDF-1.4'' \<noteq> []"
  "structure_error env_pdfminer_fails ''%PDF-1.4''"
  "primary_text env_primary_raises bytes31 = []"
  "\<not> secondary_runs env_primary_raises bytes31"
  "plain_text env_primary_raises bytes31 = bytes31"
  "primary_text env_primary_raises bytes30 = []"
  "\<not> secondary_runs env_primary_raises bytes30"
  "plain_text env_primary_raises bytes30 = bytes30"
  "primary_text env_primary_empty ''%PDF-1.4'' = []"
  "secondary_text env_primary_empty ''%PDF-1.4'' = ''text found by the secondary decoder''"
  "\<not> secondary_runs env_primary_empty ''%PDF-1.4''"
  "length bytes30 = 30" "length bytes31 = 31" "bytes30 \<noteq> []" "bytes31 \<noteq> []"
  by (simp_all add: primary_text_def secondary_text_def plain_text_def secondary_runs_def
      structure_error_def decoder_text_def secondary_tried_def primary_structure_error_def
      pages_text_def pdfminer_error_def
      py_in_def py_strip_def py_lower_def lower_char_def upper_lower_table_def is_space_def
      env_primary_ok_def env_pdfminer_fails_def env_primary_raises_def env_primary_empty_def
      bytes30_def bytes31_def MAX_PDF_BYTES_def Let_def)

lemma extract_examples_text:
  "fst (extract_text_from_pdf env_primary_raises bytes30) = []"
  "fst (extract_text_from_pdf env_primary_raises bytes31) = bytes31"
  by (simp_all add: extract_examples)



lemma user_winner_fields:
  "user_skills user_winner = user_skills user_python"
  "user_embedding user_winner = user_embedding user_python"
  "user_roles user_winner = user_roles user_python"
  "user_experience_years user_winner = user_experience_years user_python"
  "user_timezone user_winner = user_timezone user_python"
  "user_hackathons user_winner \<noteq> user_hackathons user_python"
  by (simp_all add: user_winner_def user_python_def)

lemma norm_examples:
  "np_linalg_norm [3, 4] = 5" "np_linalg_norm [4, 3] = 5" "np_linalg_norm [0, 0] = 0"
  "np_linalg_norm [1, 2] \<noteq> 0" "dot_list [3, 4] [4, 3] = 24"
  by (simp_all add: np_linalg_norm_def dot_list_def)

lemma rank_examples:
  "rank_matches [match_one, match_three, match_one_again] 3
     = [match_three, match_one, match_one_again]"
  "rank_matches [match_one, match_three, match_one_again] 2 = [match_three, match_one]"
  "rank_matches [match_one_again, match_one, match_three] 3
     = [match_three, match_one_again, match_one]"
  "rank_matches [match_one, match_three, match_one_again] (- 1) = [match_three, match_one]"
  by (simp_all add: rank_matches_def py_slice_to_def py_sort_reverse_def rank_key_def
      match_one_def match_three_def match_one_again_def less_eq_prod_def)


lemma text_second_examples:
  "keyword_hits text_second = [''hackathon'', ''mlh'']"
  "py_find (py_lower text_second) ''mlh'' = Some 22"
  "py_find (py_lower text_second) ''hackathon'' = Some 26"
  "length text_second = 35"
  by code_simp+

lemma text_second_windows:
  "keyword_window text_second ''mlh'' = text_second"
  "keyword_window text_second ''hackathon'' = text_second"
  by code_simp+

lemma text_second_classify: "classify_snippet text_second = Second"
  by code_simp

lemma text_second_placements:
  "keyword_placement text_second ''mlh'' = Second"
  "keyword_placement text_second ''hackathon'' = Second"
  by (simp_all add: keyword_placement_def text_second_windows text_second_classify)

lemma match_example_subscores:
  "calculate_skill_overlap [''python''] [''python''] = (1, [''python''], [])"
  "calculate_skill_overlap six_skills six_skills = (1, six_skills, [])"
  "calculate_skill_overlap [] six_skills = (0, [], [])"
  by (simp_all add: calculate_skill_overlap_def skill_dict_def normalize_skill_def
      replace_char_def py_strip_def py_lower_def lower_char_def upper_lower_table_def
      is_space_def six_skills_def Let_def)

lemma shared_key_count_examples:
  "shared_key_count [''python''] [''python''] = 1"
  "shared_key_count six_skills six_skills = 6"
  "shared_key_count [] six_skills = 0"
  "shared_key_count [''python''] [] = 0"
  "length six_skills = 6"
  by (simp_all add: shared_key_count_def six_skills_def normalize_skill_def
      replace_char_def py_strip_def py_lower_def lower_char_def upper_lower_table_def
      is_space_def)

lemma cosine_examples:
  "cosine_similarity [3, 4] [3, 4] = Inr 1"
  "cosine_similarity [- 3, - 4] [3, 4] = Inr (- 1)"
  by (simp_all add: cosine_similarity_def np_dot_def np_linalg_norm_def)

lemma role_examples:
  "calculate_role_match [''backend''] [''Backend''] = (1, [''backend''])"
  "calculate_role_match [''frontend''] [''Backend''] = (0, [])"
  "calculate_role_match [] [] = (1, [])"
  by (simp_all add: calculate_role_match_def py_lower_def lower_char_def upper_lower_table_def
      Let_def)

lemma example_fields:
  "user_skills user_python = [''python'']" "required_skills project_python = [''python'']"
  "embedding_subscore user_python project_python = 1 / 2"
  "user_roles user_python = []" "required_roles project_python = []"
  "calculate_experience_fit (user_experience_years user_python)
     (min_experience project_python) (max_experience project_python) = 1"
  "calculate_availability_score (user_timezone user_python) (project_timezone project_python) = 1"
  "user_skills user_six = six_skills" "required_skills project_six = six_skills"
  "embedding_subscore user_six project_six = 1"
  "user_roles user_six = [''backend'']" "required_roles project_six = [''Backend'']"
  "calculate_experience_fit (user_experience_years user_six)
     (min_experience project_six) (max_experience project_six) = 1"
  "calculate_availability_score (user_timezone user_six) (project_timezone project_six) = 1"
  "user_skills user_none = []"
  "embedding_subscore user_none project_six = - 1"
  "user_roles user_none = [''frontend'']"
  "calculate_experience_fit (user_experience_years user_none)
     (min_experience project_six) (max_experience project_six) = 7 / 10"
  "calculate_availability_score (user_timezone user_none) (project_timezone project_six) = 4 / 5"
  by (simp_all add: user_python_def project_python_def project_open_def user_six_def
      project_six_def user_none_def embedding_subscore_def truthy_def
      calculate_embedding_score_def cosine_examples calculate_experience_fit_def
      calculate_availability_score_def)

lemma scenario_a_examples:
  "matches_anywhere (py_lower text_scenario_a) = [''5'', ''3'']"
  "findall_years 0 (py_lower text_scenario_a) = [''5'', ''3'']"
  "py_int ''5'' = 5" "py_int ''3'' = 3"
  "matches_anywhere (py_lower ''ten years of experience'') = []"
  by code_simp+

lemma winner_examples:
  "keyword_hits text_winner = [''hackathon'']"
  "keyword_window text_winner ''hackathon'' = text_winner"
  "keyword_placement text_winner ''hackathon'' = Participant"
  "keyword_achievement text_winner ''hackathon''
     = \<lparr>snippet_context = text_winner, placement = Participant\<rparr>"
  "keyword_hits text_winner_lower = [''hackathon'']"
  "keyword_placement text_winner_lower ''hackathon'' = First"
  "keyword_achievement text_winner_lower ''hackathon''
     = \<lparr>snippet_context = text_winner_lower, placement = First\<rparr>"
  by code_simp+

section \<open>Facts about the cosine similarity\<close>

lemma sum_squares_nonneg: "0 \<le> sum_list (map (\<lambda>x. x * x) (v :: real list))"
  by (induction v) auto

lemma sum_squares_zero_iff:
  "(sum_list (map (\<lambda>x. x * x) (v :: real list)) = 0) = (\<forall>x \<in> set v. x = 0)"
proof (induction v)
  case Nil
  then show ?case by simp
next
  case (Cons x v)
  have "0 \<le> x * x" by simp
  moreover have "0 \<le> sum_list (map (\<lambda>x. x * x) v)" by (rule sum_squares_nonneg)
  ultimately have "(x * x + sum_list (map (\<lambda>x. x * x) v) = 0)
      = (x * x = 0 \<and> sum_list (map (\<lambda>x. x * x) v) = 0)"
    by (rule add_nonneg_eq_0_iff)
  with Cons.IH show ?case by simp
qed

lemma norm_zero_iff: "(np_linalg_norm v = 0) = (\<forall>x \<in> set v. x = 0)"
  by (simp add: np_linalg_norm_def sum_squares_zero_iff)

lemma norm_nonneg: "0 \<le> np_linalg_norm v"
  by (simp add: np_linalg_norm_def sum_squares_nonneg)

lemma four_mult_le_square: "4 * u * v \<le> (u + v)\<^sup>2" for u v :: real
proof -
  have "(u + v)\<^sup>2 - 4 * u * v = (u - v)\<^sup>2"
    by (simp add: power2_eq_square algebra_simps)
  moreover have "0 \<le> (u - v)\<^sup>2" by simp
  ultimately show ?thesis by linarith
qed

lemma cauchy_step:
  fixes D A B x y :: real
  assumes "D * D \<le> A * B" "0 \<le> A" "0 \<le> B"
  shows "(D + x * y) * (D + x * y) \<le> (x * x + A) * (y * y + B)"
proof -
  define u where "u = A * (y * y)"
  define v where "v = B * (x * x)"
  define w where "w = D * (x * y)"
  have u: "0 \<le> u" and v: "0 \<le> v" using assms by (simp_all add: u_def v_def)
  have "w * w = (D * D) * ((x * y) * (x * y))" by (simp add: w_def)
  also have "\<dots> \<le> (A * B) * ((x * y) * (x * y))"
    using assms(1) by (rule mult_right_mono) simp
  also have "\<dots> = u * v" by (simp add: u_def v_def)
  finally have ww: "w * w \<le> u * v" .
  have "(2 * w)\<^sup>2 = 4 * (w * w)" by (simp add: power2_eq_square)
  also have "\<dots> \<le> 4 * (u * v)" using ww by simp
  also have "\<dots> \<le> (u + v)\<^sup>2" using four_mult_le_square [of u v] by simp
  finally have "(2 * w)\<^sup>2 \<le> (u + v)\<^sup>2" .
  moreover have "0 \<le> u + v" using u v by simp
  ultimately have le: "2 * w \<le> u + v" by (rule power2_le_imp_le)
  have l: "(D + x * y) * (D + x * y) = D * D + 2 * w + (x * y) * (x * y)"
    unfolding w_def by (simp add: distrib_left distrib_right mult.commute)
  have r: "(x * x + A) * (y * y + B) = (x * y) * (x * y) + v + u + A * B"
    unfolding u_def v_def by (simp add: distrib_left distrib_right mult_ac)
  show ?thesis unfolding l r using le assms(1) by linarith
qed

lemma cauchy_schwarz_list:
  "length a = length b \<Longrightarrow>
     dot_list a b * dot_list a b
       \<le> sum_list (map (\<lambda>x. x * x) a) * sum_list (map (\<lambda>x. x * x) b)"
proof (induction a b rule: list_induct2)
  case Nil
  then show ?case by (simp add: dot_list_def)
next
  case (Cons x xs y ys)
  have "(dot_list xs ys + x * y) * (dot_list xs ys + x * y)
          \<le> (x * x + sum_list (map (\<lambda>x. x * x) xs)) * (y * y + sum_list (map (\<lambda>x. x * x) ys))"
    using Cons.IH sum_squares_nonneg [of xs] sum_squares_nonneg [of ys] by (rule cauchy_step)
  then show ?case by (simp add: dot_list_def add.commute)
qed

lemma dot_le_norms:
  assumes "length a = length b"
  shows "\<bar>dot_list a b\<bar> \<le> np_linalg_norm a * np_linalg_norm b"
proof -
  let ?A = "sum_list (map (\<lambda>x. x * x) a)" and ?B = "sum_list (map (\<lambda>x. x * x) b)"
  have "(dot_list a b)\<^sup>2 \<le> ?A * ?B"
    using cauchy_schwarz_list [OF assms] by (simp add: power2_eq_square)
  then have "sqrt ((dot_list a b)\<^sup>2) \<le> sqrt (?A * ?B)" by (rule real_sqrt_le_mono)
  then show ?thesis by (simp add: np_linalg_norm_def real_sqrt_mult)
qed

lemma cosine_same_length:
  "length a = length b \<Longrightarrow>
     cosine_similarity a b =
       Inr (if np_linalg_norm a = 0 \<or> np_linalg_norm b = 0 then 0
            else dot_list a b / (np_linalg_norm a * np_linalg_norm b))"
  by (simp add: cosine_similarity_def np_dot_def dot_list_def Let_def)

lemma cosine_mismatch: "length a \<noteq> length b \<Longrightarrow> cosine_similarity a b = Inl ValueError"
  by (simp add: cosine_similarity_def np_dot_def)

lemma cosine_bounds:
  assumes "cosine_similarity a b = Inr s"
  shows "- 1 \<le> s \<and> s \<le> 1"
proof -
  have len: "length a = length b"
    using assms cosine_mismatch [of a b] by (cases "length a = length b") auto
  show ?thesis
  proof (cases "np_linalg_norm a = 0 \<or> np_linalg_norm b = 0")
    case True
    with assms len show ?thesis by (simp add: cosine_same_length)
  next
    case False
    then have pos: "0 < np_linalg_norm a * np_linalg_norm b"
      using norm_nonneg [of a] norm_nonneg [of b] by (simp add: less_le)
    from False assms len have s: "s = dot_list a b / (np_linalg_norm a * np_linalg_norm b)"
      by (simp add: cosine_same_length)
    have "\<bar>s\<bar> = \<bar>dot_list a b\<bar> / (np_linalg_norm a * np_linalg_norm b)"
      unfolding s using pos by (simp add: abs_divide)
    also have "\<dots> \<le> 1"
      using dot_le_norms [OF len] pos by (simp add: divide_le_eq)
    finally have "\<bar>s\<bar> \<le> 1" .
    then show ?thesis by linarith
  qed
qed

section \<open>Facts about the sub-scores and the final score\<close>

lemma skill_score_bounds:
  "0 \<le> fst (calculate_skill_overlap us rs) \<and> fst (calculate_skill_overlap us rs) \<le> 1"
  by (simp add: calculate_skill_overlap_def Let_def min_def)

lemma role_score_bounds:
  "0 \<le> fst (calculate_role_match ur rr) \<and> fst (calculate_role_match ur rr) \<le> 1"
proof (cases "rr = []")
  case True
  then show ?thesis by (simp add: calculate_role_match_def)
next
  case False
  let ?req = "set (map py_lower rr)"
  let ?m = "remdups (filter (\<lambda>r. r \<in> ?req) (map py_lower ur))"
  have "card (set ?m) = length ?m" by (rule distinct_card) simp
  moreover have "card (set ?m) \<le> card ?req" by (rule card_mono) auto
  ultimately have le: "real (length ?m) \<le> real (card ?req)" by simp
  have pos: "0 < real (card ?req)" using False by (simp add: card_gt_0_iff)
  have "fst (calculate_role_match ur rr) = real (length ?m) / real (card ?req)"
    using False by (simp add: calculate_role_match_def Let_def)
  then show ?thesis using le pos by (simp add: divide_le_eq)
qed

lemma experience_fit_bounds:
  "1 / 2 \<le> calculate_experience_fit x lo hi \<and> calculate_experience_fit x lo hi \<le> 1"
  by (simp add: calculate_experience_fit_def Let_def max_def)

lemma availability_bounds:
  "4 / 5 \<le> calculate_availability_score a b \<and> calculate_availability_score a b \<le> 1"
  by (simp add: calculate_availability_score_def)

lemma embedding_score_bounds:
  "- 1 \<le> calculate_embedding_score e1 e2 \<and> calculate_embedding_score e1 e2 \<le> 1"
  by (auto simp: calculate_embedding_score_def dest: cosine_bounds
      split: option.splits sum.splits)

lemma embedding_subscore_bounds: "- 1 \<le> embedding_subscore u p \<and> embedding_subscore u p \<le> 1"
  using embedding_score_bounds [of "user_embedding u" "project_embedding p"]
  by (simp add: embedding_subscore_def)

lemma weighted_sum_eq:
  "weighted_sum s e r x a = s * 0.45 + e * 0.25 + r * 0.15 + x * 0.06 + a * 0.04"
  by (simp add: weighted_sum_def WEIGHTS_def)

lemma weighted_sum_le:
  assumes "s \<le> 1" "e \<le> 1" "r \<le> 1" "x \<le> 1" "a \<le> 1"
  shows "weighted_sum s e r x a \<le> 0.95"
proof -
  have "weighted_sum s e r x a
          = s * (9 / 20) + e * (1 / 4) + r * (3 / 20) + x * (3 / 50) + a * (1 / 25)"
    by (simp add: weighted_sum_eq)
  moreover have "s * (9 / 20) + e * (1 / 4) + r * (3 / 20) + x * (3 / 50) + a * (1 / 25)
          \<le> 19 / 20"
    using assms by linarith
  ultimately show ?thesis by simp
qed

lemma match_score_eq:
  "score (match_user_to_project u p) =
     max 0 (min 1
       (weighted_sum (fst (calculate_skill_overlap (user_skills u) (required_skills p)))
          (embedding_subscore u p)
          (fst (calculate_role_match (user_roles u) (required_roles p)))
          (calculate_experience_fit (user_experience_years u) (min_experience p) (max_experience p))
          (calculate_availability_score (user_timezone u) (project_timezone p))
        + min (real (length (fst (snd (calculate_skill_overlap (user_skills u) (required_skills p))))) * 0.02) 0.12))"
  by (simp add: match_user_to_project_def Let_def)

lemma match_shared_eq:
  "shared_skills (match_user_to_project u p)
     = fst (snd (calculate_skill_overlap (user_skills u) (required_skills p)))"
  by (simp add: match_user_to_project_def Let_def)



lemma match_depends_on_five_fields:
  assumes "user_skills u1 = user_skills u2" "user_embedding u1 = user_embedding u2"
    "user_roles u1 = user_roles u2" "user_experience_years u1 = user_experience_years u2"
    "user_timezone u1 = user_timezone u2"
  shows "match_user_to_project u1 p = match_user_to_project u2 p"
proof -
  have "embedding_subscore u1 p = embedding_subscore u2 p"
    by (simp only: embedding_subscore_def assms(2))
  then show ?thesis
    unfolding match_user_to_project_def by (simp only: assms)
qed

lemma match_weighted_sum_le:
  "weighted_sum (fst (calculate_skill_overlap (user_skills u) (required_skills p)))
      (embedding_subscore u p)
      (fst (calculate_role_match (user_roles u) (required_roles p)))
      (calculate_experience_fit (user_experience_years u) (min_experience p) (max_experience p))
      (calculate_availability_score (user_timezone u) (project_timezone p))
    \<le> 0.95"
proof (rule weighted_sum_le)
  show "fst (calculate_skill_overlap (user_skills u) (required_skills p)) \<le> 1"
    by (simp add: skill_score_bounds)
  show "embedding_subscore u p \<le> 1" by (simp add: embedding_subscore_bounds)
  show "fst (calculate_role_match (user_roles u) (required_roles p)) \<le> 1"
    by (simp add: role_score_bounds)
  show "calculate_experience_fit (user_experience_years u) (min_experience p) (max_experience p) \<le> 1"
    by (simp add: experience_fit_bounds)
  show "calculate_availability_score (user_timezone u) (project_timezone p) \<le> 1"
    by (simp add: availability_bounds)
qed

lemma weights_facts:
  "hackathon_bonus WEIGHTS = 0.05"
  "skill_overlap WEIGHTS + embedding_similarity WEIGHTS + role_match WEIGHTS
     + experience_fit WEIGHTS + availability WEIGHTS = 0.95"
  by (simp_all add: WEIGHTS_def)

lemma weighted_sum_ones: "weighted_sum 1 1 1 1 1 = 0.95"
  by (simp add: weighted_sum_eq)

lemma match_ignores_hackathons:
  "match_user_to_project (u\<lparr>user_hackathons := h\<rparr>) p = match_user_to_project u p"
  by (rule match_depends_on_five_fields) simp_all

lemma shared_skills_count:
  "length (fst (snd (calculate_skill_overlap us rs))) = shared_key_count us rs"
proof (cases "rs = []")
  case True
  then show ?thesis by (simp add: calculate_skill_overlap_def shared_key_count_def)
next
  case False
  then show ?thesis by (simp add: skill_overlap_lists shared_key_count_def)
qed

section \<open>Facts about the ranking\<close>

lemma py_sort_reverse_sorted:
  "sorted_wrt (\<lambda>a b. key a \<ge> key b) (py_sort_reverse key xs)"
proof -
  have "sorted (map key (sort_key key (rev xs)))" by simp
  then have "sorted_wrt (\<lambda>a b. key a \<le> key b) (sort_key key (rev xs))"
    by (simp only: sorted_map)
  then show ?thesis by (simp add: py_sort_reverse_def sorted_wrt_rev)
qed

lemma py_sort_reverse_stable:
  "filter (\<lambda>y. key y = k) (py_sort_reverse key xs) = filter (\<lambda>y. key y = k) xs"
proof -
  have "filter (\<lambda>y. key y = k) (py_sort_reverse key xs)
          = rev (filter (\<lambda>y. key y = k) (sort_key key (rev xs)))"
    by (simp add: py_sort_reverse_def rev_filter)
  also have "\<dots> = rev (filter (\<lambda>y. key y = k) (rev xs))"
    by (simp only: sort_key_stable)
  also have "\<dots> = filter (\<lambda>y. key y = k) xs" by (simp add: rev_filter)
  finally show ?thesis .
qed

lemma py_sort_reverse_length: "length (py_sort_reverse key xs) = length xs"
  by (simp add: py_sort_reverse_def)

lemma py_sort_reverse_set: "set (py_sort_reverse key xs) = set xs"
  by (simp add: py_sort_reverse_def)


lemma rank_key_le_iff: "(rank_key b \<le> rank_key a) = ranks_before a b"
  by (auto simp: rank_key_def ranks_before_def less_eq_prod_def)

lemma rank_key_eq_iff:
  "(rank_key m = (s, n)) = (score m = s \<and> length (shared_skills m) = n)"
  by (auto simp: rank_key_def)

lemma filter_take_prefix:
  "filter P (take n xs) = take (length (filter P (take n xs))) (filter P xs)"
proof -
  have "filter P xs = filter P (take n xs) @ filter P (drop n xs)"
    by (simp only: filter_append [symmetric] append_take_drop_id)
  then show ?thesis by simp
qed

lemma py_slice_to_nonneg: "0 \<le> k \<Longrightarrow> py_slice_to k xs = take (nat k) xs"
  by (simp add: py_slice_to_def)

lemma py_slice_to_take: "\<exists>n. py_slice_to k xs = take n xs"
  by (auto simp: py_slice_to_def)

lemma rank_matches_sorted: "sorted_wrt ranks_before (rank_matches ms top_k)"
proof -
  have "sorted_wrt (\<lambda>a b. rank_key b \<le> rank_key a) (py_sort_reverse rank_key ms)"
    by (rule py_sort_reverse_sorted)
  then have s: "sorted_wrt ranks_before (py_sort_reverse rank_key ms)"
    by (simp only: rank_key_le_iff)
  obtain n where "py_slice_to top_k (py_sort_reverse rank_key ms)
      = take n (py_sort_reverse rank_key ms)"
    using py_slice_to_take by blast
  then show ?thesis using s by (simp add: rank_matches_def sorted_wrt_take)
qed

lemma rank_matches_stable:
  "filter (\<lambda>m. score m = s \<and> length (shared_skills m) = n) (rank_matches ms top_k)
     = take (length (filter (\<lambda>m. score m = s \<and> length (shared_skills m) = n)
                       (rank_matches ms top_k)))
         (filter (\<lambda>m. score m = s \<and> length (shared_skills m) = n) ms)"
proof -
  let ?P = "\<lambda>m. score m = s \<and> length (shared_skills m) = n"
  let ?R = "py_sort_reverse rank_key ms"
  obtain j where j: "rank_matches ms top_k = take j ?R"
    using py_slice_to_take [of top_k ?R] by (auto simp: rank_matches_def)
  have "filter ?P ?R = filter (\<lambda>m. rank_key m = (s, n)) ?R"
    by (simp only: rank_key_eq_iff)
  also have "\<dots> = filter (\<lambda>m. rank_key m = (s, n)) ms" by (rule py_sort_reverse_stable)
  also have "\<dots> = filter ?P ms" by (simp only: rank_key_eq_iff)
  finally have st: "filter ?P ?R = filter ?P ms" .
  have "filter ?P (take j ?R) = take (length (filter ?P (take j ?R))) (filter ?P ?R)"
    by (rule filter_take_prefix)
  then show ?thesis by (simp only: j st)
qed

lemma rank_matches_length:
  "0 \<le> top_k \<Longrightarrow> length (rank_matches ms top_k) = min (nat top_k) (length ms)"
  by (simp add: rank_matches_def py_slice_to_nonneg py_sort_reverse_length min.commute)

lemma rank_matches_all:
  "rank_matches ms (int (length ms)) = py_sort_reverse rank_key ms"
  by (simp add: rank_matches_def py_slice_to_nonneg py_sort_reverse_length)

lemma rank_matches_prefix:
  "0 \<le> top_k \<Longrightarrow> rank_matches ms top_k = take (nat top_k) (rank_matches ms (int (length ms)))"
  by (simp add: rank_matches_all) (simp add: rank_matches_def py_slice_to_nonneg)

lemma rank_matches_subset: "set (rank_matches ms top_k) \<subseteq> set ms"
proof -
  obtain j where "rank_matches ms top_k = take j (py_sort_reverse rank_key ms)"
    using py_slice_to_take [of top_k "py_sort_reverse rank_key ms"]
    by (auto simp: rank_matches_def)
  then show ?thesis using set_take_subset [of j "py_sort_reverse rank_key ms"]
    by (simp add: py_sort_reverse_set)
qed

section \<open>Facts about the achievement extractor\<close>

lemma starts_with_iff: "starts_with p s = (\<exists>post. s = p @ post)"
  by (induction p s rule: starts_with.induct) auto

lemma starts_with_drop: "starts_with p s \<Longrightarrow> s = p @ drop (length p) s"
  by (auto simp: starts_with_iff)

lemma alt_matches_at_iff:
  "alt_matches_at prev alt s =
     (\<exists>post. s = alt @ post \<and> alt \<noteq> []
        \<and> prev \<noteq> is_word_char (hd alt)
        \<and> is_word_char (last alt) \<noteq> (post \<noteq> [] \<and> is_word_char (hd post)))"
proof
  assume a: "alt_matches_at prev alt s"
  then have s: "s = alt @ drop (length alt) s"
    by (simp add: alt_matches_at_def starts_with_drop)
  from a have "is_word_char (last alt)
      \<noteq> (drop (length alt) s \<noteq> [] \<and> is_word_char (hd (drop (length alt) s)))"
    by (cases "drop (length alt) s") (simp_all add: alt_matches_at_def)
  with a s show "\<exists>post. s = alt @ post \<and> alt \<noteq> []
        \<and> prev \<noteq> is_word_char (hd alt)
        \<and> is_word_char (last alt) \<noteq> (post \<noteq> [] \<and> is_word_char (hd post))"
    by (intro exI [of _ "drop (length alt) s"]) (simp add: alt_matches_at_def)
next
  assume "\<exists>post. s = alt @ post \<and> alt \<noteq> []
        \<and> prev \<noteq> is_word_char (hd alt)
        \<and> is_word_char (last alt) \<noteq> (post \<noteq> [] \<and> is_word_char (hd post))"
  then obtain post where p: "s = alt @ post" "alt \<noteq> []" "prev \<noteq> is_word_char (hd alt)"
    "is_word_char (last alt) \<noteq> (post \<noteq> [] \<and> is_word_char (hd post))" by blast
  then show "alt_matches_at prev alt s"
    by (cases post) (simp_all add: alt_matches_at_def starts_with_iff)
qed

lemma search_from_iff:
  "search_from alts prev s =
     (\<exists>pre alt post. s = pre @ alt @ post \<and> alt \<in> set alts \<and> alt \<noteq> []
        \<and> (if pre = [] then prev else is_word_char (last pre)) \<noteq> is_word_char (hd alt)
        \<and> is_word_char (last alt) \<noteq> (post \<noteq> [] \<and> is_word_char (hd post)))"
proof (induction s arbitrary: prev)
  case Nil
  show ?case by simp
next
  case (Cons c cs)
  let ?Q = "\<lambda>p pre alt post. alt \<in> set alts \<and> alt \<noteq> []
        \<and> (if pre = [] then p else is_word_char (last pre)) \<noteq> is_word_char (hd alt)
        \<and> is_word_char (last alt) \<noteq> (post \<noteq> [] \<and> is_word_char (hd post))"
  have here: "list_ex (\<lambda>alt. alt_matches_at prev alt (c # cs)) alts
      = (\<exists>alt post. c # cs = [] @ alt @ post \<and> ?Q prev [] alt post)"
    by (auto simp: list_ex_iff alt_matches_at_iff)
  have later: "search_from alts (is_word_char c) cs
      = (\<exists>pre alt post. c # cs = (c # pre) @ alt @ post \<and> ?Q prev (c # pre) alt post)"
    by (simp add: Cons.IH)
  have "(\<exists>pre alt post. c # cs = pre @ alt @ post \<and> ?Q prev pre alt post)
      = ((\<exists>alt post. c # cs = [] @ alt @ post \<and> ?Q prev [] alt post)
         \<or> (\<exists>pre alt post. c # cs = (c # pre) @ alt @ post \<and> ?Q prev (c # pre) alt post))"
  proof
    assume "\<exists>pre alt post. c # cs = pre @ alt @ post \<and> ?Q prev pre alt post"
    then obtain pre alt post where e: "c # cs = pre @ alt @ post" and q: "?Q prev pre alt post"
      by blast
    show "(\<exists>alt post. c # cs = [] @ alt @ post \<and> ?Q prev [] alt post)
         \<or> (\<exists>pre alt post. c # cs = (c # pre) @ alt @ post \<and> ?Q prev (c # pre) alt post)"
    proof (cases pre)
      case Nil
      with e q show ?thesis by blast
    next
      case (Cons d pre')
      with e have "d = c" by simp
      with Cons e q show ?thesis by blast
    qed
  next
    assume "(\<exists>alt post. c # cs = [] @ alt @ post \<and> ?Q prev [] alt post)
         \<or> (\<exists>pre alt post. c # cs = (c # pre) @ alt @ post \<and> ?Q prev (c # pre) alt post)"
    then show "\<exists>pre alt post. c # cs = pre @ alt @ post \<and> ?Q prev pre alt post" by blast
  qed
  with here later show ?case by simp
qed

lemma re_search_words_iff: "re_search_words alts s = occurs_as_word alts s"
proof -
  have c: "(if pre = [] then False else is_word_char (last pre))
             = (pre \<noteq> [] \<and> is_word_char (last pre))" for pre
    by simp
  show ?thesis
    unfolding re_search_words_def occurs_as_word_def search_from_iff c ..
qed

lemma py_lower_length: "length (py_lower s) = length s"
  by (simp add: py_lower_def)

lemma py_slice_nth:
  "e \<le> length xs \<Longrightarrow> py_slice s e xs = map ((!) xs) [s..<e]"
  by (simp add: py_slice_def list_eq_iff_nth_eq)

lemma snippet_at_nth:
  "snippet_at text idx = map ((!) text) [idx - 120..<min (length text) (idx + 120)]"
proof -
  have "snippet_at text idx = py_slice (idx - 120) (min (length text) (idx + 120)) text"
    by (simp add: snippet_at_def Let_def py_lower_length)
  then show ?thesis by (simp add: py_slice_nth)
qed

lemma hackathon_step_eq:
  "hackathon_step text (found, wins) kw =
     (if py_in kw (py_lower text)
      then (found @ [keyword_achievement text kw],
            wins(keyword_placement text kw := wins (keyword_placement text kw) + 1))
      else (found, wins))"
  by (auto simp: hackathon_step_def Let_def py_in_def keyword_achievement_def
      keyword_placement_def keyword_window_def split: option.splits)

lemma hackathon_fold:
  "foldl (hackathon_step text) (found, wins) kws =
     (found @ map (keyword_achievement text) (filter (\<lambda>kw. py_in kw (py_lower text)) kws),
      \<lambda>p. wins p + length (filter (\<lambda>kw. keyword_placement text kw = p)
                            (filter (\<lambda>kw. py_in kw (py_lower text)) kws)))"
proof (induction kws arbitrary: found wins)
  case Nil
  show ?case by simp
next
  case (Cons kw kws)
  show ?case
  proof (cases "py_in kw (py_lower text)")
    case True
    have "(\<lambda>p. (wins(keyword_placement text kw := wins (keyword_placement text kw) + 1)) p
                + length (filter (\<lambda>k. keyword_placement text k = p)
                            (filter (\<lambda>k. py_in k (py_lower text)) kws)))
        = (\<lambda>p. wins p + length (filter (\<lambda>k. keyword_placement text k = p)
                            (filter (\<lambda>k. py_in k (py_lower text)) (kw # kws))))"
      using True by (intro ext) simp
    then show ?thesis using True by (simp add: hackathon_step_eq Cons.IH)
  next
    case False
    then show ?thesis by (simp add: hackathon_step_eq Cons.IH)
  qed
qed

lemma extract_hackathon_wins_eq:
  "extract_hackathon_wins text =
     \<lparr>total_hackathons = length (keyword_hits text),
      achievements = map (keyword_achievement text) (keyword_hits text),
      wins_breakdown = (\<lambda>p. length (filter (\<lambda>kw. keyword_placement text kw = p)
                                        (keyword_hits text))),
      hackathon_score =
        length (filter (\<lambda>kw. keyword_placement text kw = First) (keyword_hits text)) * 10
        + length (filter (\<lambda>kw. keyword_placement text kw = Second) (keyword_hits text)) * 7
        + length (filter (\<lambda>kw. keyword_placement text kw = Third) (keyword_hits text)) * 5
        + length (filter (\<lambda>kw. keyword_placement text kw = Finalist) (keyword_hits text)) * 3
        + length (filter (\<lambda>kw. keyword_placement text kw = Participant) (keyword_hits text)),
      has_hackathon_experience = (length (keyword_hits text) > 0)\<rparr>"
  by (simp add: extract_hackathon_wins_def Let_def hackathon_fold keyword_hits_def)

lemma classify_never_finalist: "classify_snippet s \<noteq> Finalist"
  by (simp add: classify_snippet_def)

lemma no_finalist:
  "length (filter (\<lambda>kw. keyword_placement text kw = Finalist) kws) = 0"
  by (simp add: keyword_placement_def classify_never_finalist)

section \<open>Facts about the experience pattern\<close>

lemma dropWhile_suffix: "\<exists>m. s = m @ dropWhile P s \<and> (\<forall>c \<in> set m. P c)"
  by (intro exI [of _ "takeWhile P s"]) (auto dest: set_takeWhileD)

lemma space_not_digit: "is_space c \<Longrightarrow> \<not> is_digit c"
  by (auto simp: is_space_def is_digit_def)

lemma match_spaces1_shape:
  assumes "match_spaces1 s = Some r"
  shows "\<exists>m. s = m @ r \<and> m \<noteq> [] \<and> (\<forall>c \<in> set m. \<not> is_digit c)"
proof (cases s)
  case Nil
  with assms show ?thesis by (simp add: match_spaces1_def)
next
  case (Cons c cs)
  with assms have c: "is_space c" and r: "r = dropWhile is_space cs"
    by (simp_all add: match_spaces1_def split: if_splits)
  obtain m where m: "cs = m @ dropWhile is_space cs" "\<forall>x \<in> set m. is_space x"
    using dropWhile_suffix [of cs is_space] by blast
  have e: "s = (c # m) @ r" using Cons r m(1) by simp
  have d: "\<forall>x \<in> set (c # m). \<not> is_digit x"
    using c m(2) by (simp add: space_not_digit)
  show ?thesis using e d by (intro exI [of _ "c # m"]) simp
qed

lemma word_lengths:
  "length ''of'' = 2" "length ''years'' = 5" "length ''yrs'' = 3" "length ''experience'' = 10"
  by simp_all

lemma match_experience_shape:
  "match_experience s = Some r \<Longrightarrow> s = ''experience'' @ r"
  by (auto simp: match_experience_def starts_with_iff split: if_splits)

lemma no_digit_experience: "\<forall>c \<in> set ''experience''. \<not> is_digit c"
  by (simp add: is_digit_def)

lemma match_of_experience_shape:
  assumes "match_of_experience s = Some r"
  shows "\<exists>m. s = m @ r \<and> m \<noteq> [] \<and> (\<forall>c \<in> set m. \<not> is_digit c)"
proof -
  from assms consider
      (direct) "match_experience s = Some r"
    | (with_of) t where "starts_with ''of'' s" "match_spaces1 (drop 2 s) = Some t"
        "match_experience t = Some r"
    by (auto simp: match_of_experience_def split: option.splits if_splits)
  then show ?thesis
  proof cases
    case direct
    then have "s = ''experience'' @ r" by (rule match_experience_shape)
    then show ?thesis using no_digit_experience by blast
  next
    case with_of
    from with_of(1) have s: "s = ''of'' @ drop 2 s"
      using starts_with_drop [of "''of''" s, unfolded word_lengths] by blast
    obtain m where m: "drop 2 s = m @ t" "\<forall>c \<in> set m. \<not> is_digit c"
      using match_spaces1_shape [OF with_of(2)] by blast
    have t: "t = ''experience'' @ r" using with_of(3) by (rule match_experience_shape)
    have "s = (''of'' @ m @ ''experience'') @ r" using s m(1) t by simp
    moreover have "\<forall>c \<in> set (''of'' @ m @ ''experience''). \<not> is_digit c"
      using m(2) by (auto simp: is_digit_def)
    ultimately show ?thesis by blast
  qed
qed

lemma years_word_shape:
  assumes "starts_with w s" "w \<noteq> []" "\<forall>c \<in> set w. \<not> is_digit c"
    "match_spaces1 (drop (length w) s) = Some t" "match_of_experience t = Some r"
  shows "\<exists>m. s = m @ r \<and> m \<noteq> [] \<and> (\<forall>c \<in> set m. \<not> is_digit c)"
proof -
  from assms(1) have s: "s = w @ drop (length w) s" by (rule starts_with_drop)
  obtain m1 where m1: "drop (length w) s = m1 @ t" "\<forall>c \<in> set m1. \<not> is_digit c"
    using match_spaces1_shape [OF assms(4)] by blast
  obtain m2 where m2: "t = m2 @ r" "\<forall>c \<in> set m2. \<not> is_digit c"
    using match_of_experience_shape [OF assms(5)] by blast
  have e: "s = (w @ m1 @ m2) @ r" using s m1(1) m2(1) by simp
  have d: "\<forall>c \<in> set (w @ m1 @ m2). \<not> is_digit c" using assms(3) m1(2) m2(2) by auto
  have n: "w @ m1 @ m2 \<noteq> []" using assms(2) by simp
  show ?thesis using e d n by (intro exI [of _ "w @ m1 @ m2"] conjI)
qed

lemma match_years_tail_shape:
  assumes "match_years_tail s = Some r"
  shows "\<exists>m. s = m @ r \<and> m \<noteq> [] \<and> (\<forall>c \<in> set m. \<not> is_digit c)"
proof -
  from assms consider
      (years) t where "starts_with ''years'' s" "match_spaces1 (drop 5 s) = Some t"
        "match_of_experience t = Some r"
    | (yrs) t where "starts_with ''yrs'' s" "match_spaces1 (drop 3 s) = Some t"
        "match_of_experience t = Some r"
    by (auto simp: match_years_tail_def split: option.splits if_splits)
  then show ?thesis
  proof cases
    case years
    have d: "\<forall>c \<in> set ''years''. \<not> is_digit c" by (simp add: is_digit_def)
    have n: "''years'' \<noteq> []" by simp
    have t: "match_spaces1 (drop (length ''years'') s) = Some t"
      using years(2) by (simp only: word_lengths)
    show ?thesis by (rule years_word_shape [OF years(1) n d t years(3)])
  next
    case yrs
    have d: "\<forall>c \<in> set ''yrs''. \<not> is_digit c" by (simp add: is_digit_def)
    have n: "''yrs'' \<noteq> []" by simp
    have t: "match_spaces1 (drop (length ''yrs'') s) = Some t"
      using yrs(2) by (simp only: word_lengths)
    show ?thesis by (rule years_word_shape [OF yrs(1) n d t yrs(3)])
  qed
qed

lemma match_after_digits_shape:
  assumes "match_after_digits s = Some r"
  shows "\<exists>m. s = m @ r \<and> m \<noteq> [] \<and> (\<forall>c \<in> set m. \<not> is_digit c)"
proof -
  let ?plus = "case s of [] \<Rightarrow> None
     | c # cs \<Rightarrow> if c = CHR ''+'' then match_years_tail (dropWhile is_space cs) else None"
  have unfold: "match_after_digits s =
      (case ?plus of Some r \<Rightarrow> Some r | None \<Rightarrow> match_years_tail (dropWhile is_space s))"
    by (simp add: match_after_digits_def split: list.splits)
  show ?thesis
  proof (cases ?plus)
    case None
    with assms unfold have plain: "match_years_tail (dropWhile is_space s) = Some r" by simp
    obtain m0 where m0: "s = m0 @ dropWhile is_space s" "\<forall>c \<in> set m0. is_space c"
      using dropWhile_suffix [of s is_space] by blast
    obtain m where m: "dropWhile is_space s = m @ r" "m \<noteq> []" "\<forall>c \<in> set m. \<not> is_digit c"
      using match_years_tail_shape [OF plain] by blast
    have e: "s = (m0 @ m) @ r" using m0(1) m(1) by simp
    have d: "\<forall>c \<in> set (m0 @ m). \<not> is_digit c"
      using m0(2) m(3) by (auto simp: space_not_digit)
    show ?thesis using e d m(2) by (intro exI [of _ "m0 @ m"]) simp
  next
    case (Some r')
    with assms unfold have rr: "r' = r" by simp
    from Some obtain cs where s: "s = CHR ''+'' # cs"
      and p: "match_years_tail (dropWhile is_space cs) = Some r'"
      by (cases s) (simp_all split: if_splits)
    obtain m0 where m0: "cs = m0 @ dropWhile is_space cs" "\<forall>c \<in> set m0. is_space c"
      using dropWhile_suffix [of cs is_space] by blast
    obtain m where m: "dropWhile is_space cs = m @ r" "\<forall>c \<in> set m. \<not> is_digit c"
      using match_years_tail_shape [OF p] rr by blast
    have e: "s = (CHR ''+'' # m0 @ m) @ r" using s m0(1) m(1) by simp
    have pd: "\<not> is_digit CHR ''+''" by (simp add: is_digit_def)
    have d: "\<forall>c \<in> set (CHR ''+'' # m0 @ m). \<not> is_digit c"
      using m0(2) m(2) pd by (auto simp: space_not_digit)
    show ?thesis using e d by (intro exI [of _ "CHR ''+'' # m0 @ m"]) simp
  qed
qed

lemma match_after_digits_digit:
  assumes "is_digit c"
  shows "match_after_digits (c # cs) = None"
proof (cases "match_after_digits (c # cs)")
  case None
  then show ?thesis .
next
  case (Some r)
  then obtain m where m: "c # cs = m @ r" "m \<noteq> []" "\<forall>x \<in> set m. \<not> is_digit x"
    using match_after_digits_shape by blast
  from m(1) m(2) have "hd m = c" by (cases m) simp_all
  with m(2) m(3) assms show ?thesis by (cases m) simp_all
qed

lemma match_years_at_shape:
  assumes "match_years_at s = Some (g, r)"
  shows "g = takeWhile is_digit (take 2 s) \<and> g \<noteq> []
         \<and> (\<exists>m. s = g @ m @ r \<and> m \<noteq> [] \<and> (\<forall>c \<in> set m. \<not> is_digit c))"
proof -
  let ?ds = "takeWhile is_digit (take 2 s)"
  from assms have ne: "?ds \<noteq> []"
    by (auto simp: match_years_at_def Let_def split: if_splits)
  have pre: "s = ?ds @ drop (length ?ds) s"
  proof -
    have "take 2 s = ?ds @ dropWhile is_digit (take 2 s)" by simp
    then have "take (length ?ds) (take 2 s) = ?ds"
      by (metis append_eq_conv_conj)
    moreover have "length ?ds \<le> 2"
      by (rule order_trans [OF length_takeWhile_le]) simp
    ultimately have "take (length ?ds) s = ?ds" by (simp add: min_def)
    then show ?thesis by (metis append_take_drop_id)
  qed
  have bk: "length ?ds = 2 \<Longrightarrow> match_after_digits (drop 1 s) = None"
  proof -
    assume l: "length ?ds = 2"
    then obtain a b where ab: "?ds = [a, b]"
      by (cases ?ds) (auto simp: length_Suc_conv)
    have "b \<in> set ?ds" using ab by simp
    then have b: "is_digit b" by (rule set_takeWhileD [THEN conjunct2])
    from pre ab have "drop 1 s = b # drop 2 s" by (cases s) (auto simp: drop_Suc)
    then show ?thesis using b by (simp add: match_after_digits_digit)
  qed
  from assms ne bk have g: "g = ?ds" and r: "match_after_digits (drop (length ?ds) s) = Some r"
    by (auto simp: match_years_at_def Let_def split: option.splits if_splits)
  obtain m where m: "drop (length ?ds) s = m @ r" "m \<noteq> []" "\<forall>c \<in> set m. \<not> is_digit c"
    using match_after_digits_shape [OF r] by blast
  have e: "s = g @ m @ r" using pre m(1) g by simp
  have gn: "g \<noteq> []" using g ne by simp
  have "\<exists>m. s = g @ m @ r \<and> m \<noteq> [] \<and> (\<forall>c \<in> set m. \<not> is_digit c)"
    using e m(2) m(3) by (intro exI [of _ m]) simp
  with g gn show ?thesis by simp
qed

lemma match_years_at_digits:
  assumes "match_years_at s = Some (g, r)"
  shows "(\<forall>c \<in> set g. is_digit c) \<and> length g \<le> 2 \<and> length r < length s"
proof -
  from match_years_at_shape [OF assms] obtain m where
    g: "g = takeWhile is_digit (take 2 s)" and s: "s = g @ m @ r" and m: "m \<noteq> []"
    by blast
  have "\<forall>c \<in> set g. is_digit c" unfolding g by (auto dest: set_takeWhileD)
  moreover have "length g \<le> 2"
    unfolding g by (rule order_trans [OF length_takeWhile_le]) simp
  moreover have "length s = length g + length m + length r" by (subst s) simp
  then have "length r < length s" using m by (cases m) simp_all
  ultimately show ?thesis by blast
qed


lemma takeWhile_nonempty: "takeWhile P xs \<noteq> [] \<Longrightarrow> xs \<noteq> [] \<and> P (hd xs)"
  by (cases xs) (auto split: if_splits)

lemma py_int_one: "py_int [b] = int (digit_value b)"
  by (simp add: py_int_def)

lemma py_int_two: "py_int [a, b] = int (10 * digit_value a + digit_value b)"
  by (simp add: py_int_def)

lemma overlap_smaller:
  assumes m0: "match_years_at s = Some (g0, r0)"
    and i: "0 < i" "i < length s - length r0"
    and m1: "match_years_at (drop i s) = Some (g, r)"
  shows "py_int g \<le> py_int g0"
proof -
  from match_years_at_shape [OF m0] obtain m where
    s: "s = g0 @ m @ r0" and m: "m \<noteq> []" "\<forall>c \<in> set m. \<not> is_digit c" and g0n: "g0 \<noteq> []"
    by blast
  from match_years_at_digits [OF m0] have g0d: "\<forall>c \<in> set g0. is_digit c" and g0l: "length g0 \<le> 2"
    by blast+
  have len: "length s = length g0 + length m + length r0" by (subst s) simp
  from match_years_at_shape [OF m1] have g: "g = takeWhile is_digit (take 2 (drop i s))"
    and gn: "g \<noteq> []" by blast+
  from gn g have "take 2 (drop i s) \<noteq> [] \<and> is_digit (hd (take 2 (drop i s)))"
    using takeWhile_nonempty [of is_digit "take 2 (drop i s)"] by simp
  then have dn: "drop i s \<noteq> []" and h2: "is_digit (hd (take 2 (drop i s)))" by auto
  from dn h2 have hd: "is_digit (hd (drop i s))" by (cases "drop i s") simp_all
  from dn have il: "i < length s" by simp
  have si: "is_digit (s ! i)" using hd il by (simp add: hd_drop_conv_nth)
  have ilt: "i < length g0"
  proof (rule ccontr)
    assume "\<not> i < length g0"
    then have ge: "length g0 \<le> i" by simp
    have lt: "i - length g0 < length m" using i(2) len ge by simp
    have "s ! i = (g0 @ m @ r0) ! i" using s by simp
    also have "\<dots> = (m @ r0) ! (i - length g0)" using ge by (simp add: nth_append)
    also have "\<dots> = m ! (i - length g0)" using lt by (simp add: nth_append)
    finally have "s ! i \<in> set m" using lt by simp
    with si m(2) show False by blast
  qed
  with i(1) g0l have i1: "i = 1" and l2: "length g0 = 2" by simp_all
  from l2 obtain a b where ab: "g0 = [a, b]"
    by (cases g0) (auto simp: length_Suc_conv)
  from m(1) obtain x xs where x: "m = x # xs" by (cases m) simp_all
  have xd: "\<not> is_digit x" using m(2) x by simp
  have bd: "is_digit b" using g0d ab by simp
  have "s = a # b # x # xs @ r0" using s ab x by simp
  then have "drop i s = b # x # xs @ r0" using i1 by simp
  then have "g = [b]" using g xd bd by simp
  then show ?thesis using ab by (simp add: py_int_one py_int_two)
qed

lemma findall_skip: "findall_years k s = findall_years 0 (drop k s)"
proof (induction s arbitrary: k)
  case Nil
  show ?case by simp
next
  case (Cons c cs)
  show ?case
  proof (cases k)
    case 0
    then show ?thesis by simp
  next
    case (Suc j)
    then show ?thesis using Cons.IH [of j] by simp
  qed
qed

lemma findall_cons_some:
  "match_years_at (c # cs) = Some (g, r) \<Longrightarrow>
     findall_years 0 (c # cs) = g # findall_years 0 (drop (length cs - length r) cs)"
  using findall_skip [of "length cs - length r" cs] by simp

lemma findall_cons_none:
  "match_years_at (c # cs) = None \<Longrightarrow> findall_years 0 (c # cs) = findall_years 0 cs"
  by simp

lemma anywhere_cons:
  "(g \<in> set (matches_anywhere (c # cs)))
      = ((\<exists>r. match_years_at (c # cs) = Some (g, r)) \<or> g \<in> set (matches_anywhere cs))"
  by (cases "match_years_at (c # cs)") auto

lemma anywhere_mem:
  "(g \<in> set (matches_anywhere s))
     = (\<exists>i < length s. \<exists>r. match_years_at (drop i s) = Some (g, r))"
proof (induction s)
  case Nil
  show ?case by simp
next
  case (Cons c cs)
  have "(\<exists>i < length (c # cs). \<exists>r. match_years_at (drop i (c # cs)) = Some (g, r))
      = ((\<exists>r. match_years_at (c # cs) = Some (g, r))
         \<or> (\<exists>i < length cs. \<exists>r. match_years_at (drop i cs) = Some (g, r)))"
  proof
    assume "\<exists>i < length (c # cs). \<exists>r. match_years_at (drop i (c # cs)) = Some (g, r)"
    then obtain i r where ir: "i < length (c # cs)" "match_years_at (drop i (c # cs)) = Some (g, r)"
      by blast
    show "(\<exists>r. match_years_at (c # cs) = Some (g, r))
         \<or> (\<exists>i < length cs. \<exists>r. match_years_at (drop i cs) = Some (g, r))"
    proof (cases i)
      case 0
      with ir show ?thesis by auto
    next
      case (Suc j)
      with ir have "j < length cs" "match_years_at (drop j cs) = Some (g, r)" by simp_all
      then show ?thesis by blast
    qed
  next
    assume "(\<exists>r. match_years_at (c # cs) = Some (g, r))
         \<or> (\<exists>i < length cs. \<exists>r. match_years_at (drop i cs) = Some (g, r))"
    then show "\<exists>i < length (c # cs). \<exists>r. match_years_at (drop i (c # cs)) = Some (g, r)"
    proof
      assume "\<exists>r. match_years_at (c # cs) = Some (g, r)"
      then show ?thesis by (intro exI [of _ 0]) simp
    next
      assume "\<exists>i < length cs. \<exists>r. match_years_at (drop i cs) = Some (g, r)"
      then obtain i r where "i < length cs" "match_years_at (drop i cs) = Some (g, r)" by blast
      then show ?thesis by (intro exI [of _ "Suc i"]) simp
    qed
  qed
  then show ?case using Cons.IH by (simp only: anywhere_cons)
qed


lemma anywhere_drop:
  assumes "g \<in> set (matches_anywhere (drop n s))"
  shows "g \<in> set (matches_anywhere s)"
proof -
  from assms obtain i r where i: "i < length (drop n s)"
    and m: "match_years_at (drop i (drop n s)) = Some (g, r)"
    by (auto simp: anywhere_mem)
  have "drop i (drop n s) = drop (i + n) s" by simp
  with m have "match_years_at (drop (i + n) s) = Some (g, r)" by simp
  moreover have "i + n < length s" using i by simp
  ultimately show ?thesis unfolding anywhere_mem by blast
qed

lemma findall_subset:
  "g \<in> set (findall_years 0 s) \<Longrightarrow> g \<in> set (matches_anywhere s)"
proof (induction "length s" arbitrary: s rule: less_induct)
  case less
  show ?case
  proof (cases s)
    case Nil
    with less.prems show ?thesis by simp
  next
    case (Cons c cs)
    show ?thesis
    proof (cases "match_years_at (c # cs)")
      case None
      with less.prems Cons have "g \<in> set (findall_years 0 cs)" by simp
      then have "g \<in> set (matches_anywhere cs)" using less.hyps [of cs] Cons by simp
      then show ?thesis using Cons by (simp only: anywhere_cons) simp
    next
      case (Some gr)
      obtain g0 r where gr: "gr = (g0, r)" by (cases gr)
      let ?n = "length cs - length r"
      from Some gr have m0: "match_years_at (c # cs) = Some (g0, r)" by simp
      then have f: "findall_years 0 (c # cs) = g0 # findall_years 0 (drop ?n cs)"
        by (rule findall_cons_some)
      from less.prems Cons f have "g = g0 \<or> g \<in> set (findall_years 0 (drop ?n cs))" by simp
      then show ?thesis
      proof
        assume "g = g0"
        with Some gr show ?thesis unfolding Cons anywhere_cons by blast
      next
        assume a: "g \<in> set (findall_years 0 (drop ?n cs))"
        have "length (drop ?n cs) < length s" using Cons by simp
        then have "g \<in> set (matches_anywhere (drop ?n cs))" using less.hyps a by blast
        then have "g \<in> set (matches_anywhere cs)" by (rule anywhere_drop)
        then show ?thesis unfolding Cons anywhere_cons by blast
      qed
    qed
  qed
qed

lemma findall_dominates:
  "g \<in> set (matches_anywhere s) \<Longrightarrow>
     \<exists>g' \<in> set (findall_years 0 s). py_int g \<le> py_int g'"
proof (induction "length s" arbitrary: s g rule: less_induct)
  case less
  show ?case
  proof (cases s)
    case Nil
    with less.prems show ?thesis by simp
  next
    case (Cons c cs)
    show ?thesis
    proof (cases "match_years_at (c # cs)")
      case None
      with less.prems Cons have "g \<in> set (matches_anywhere cs)"
        by (simp add: anywhere_cons)
      then obtain g' where "g' \<in> set (findall_years 0 cs)" "py_int g \<le> py_int g'"
        using less.hyps [of cs g] Cons by auto
      then show ?thesis using None Cons by auto
    next
      case (Some gr)
      obtain g0 r0 where gr: "gr = (g0, r0)" by (cases gr)
      let ?n = "length cs - length r0"
      from Some gr have m0: "match_years_at (c # cs) = Some (g0, r0)" by simp
      then have f: "findall_years 0 (c # cs) = g0 # findall_years 0 (drop ?n cs)"
        by (rule findall_cons_some)
      from less.prems Cons have "(\<exists>r. match_years_at (c # cs) = Some (g, r))
          \<or> g \<in> set (matches_anywhere cs)"
        by (simp only: anywhere_cons)
      then show ?thesis
      proof
        assume "\<exists>r. match_years_at (c # cs) = Some (g, r)"
        with m0 have "g = g0" by auto
        then show ?thesis using f Cons by auto
      next
        assume "g \<in> set (matches_anywhere cs)"
        then obtain i r where i: "i < length cs"
          and m1: "match_years_at (drop i cs) = Some (g, r)"
          by (auto simp: anywhere_mem)
        show ?thesis
        proof (cases "i < ?n")
          case True
          have "0 < Suc i" by simp
          moreover have "Suc i < length (c # cs) - length r0" using True by simp
          moreover have "match_years_at (drop (Suc i) (c # cs)) = Some (g, r)" using m1 by simp
          ultimately have "py_int g \<le> py_int g0" by (rule overlap_smaller [OF m0])
          then show ?thesis using f Cons by auto
        next
          case False
          then have "drop i cs = drop (i - ?n) (drop ?n cs)" by simp
          with m1 have "match_years_at (drop (i - ?n) (drop ?n cs)) = Some (g, r)" by simp
          moreover have "i - ?n < length (drop ?n cs)" using i False by simp
          ultimately have "g \<in> set (matches_anywhere (drop ?n cs))"
            unfolding anywhere_mem by blast
          moreover have "length (drop ?n cs) < length s" using Cons by simp
          ultimately obtain g' where "g' \<in> set (findall_years 0 (drop ?n cs))"
            "py_int g \<le> py_int g'"
            using less.hyps [of "drop ?n cs" g] by auto
          then show ?thesis using f Cons by auto
        qed
      qed
    qed
  qed
qed

lemma foldl_max_member: "foldl max (n :: int) ns \<in> set (n # ns)"
proof (induction ns arbitrary: n)
  case Nil
  show ?case by simp
next
  case (Cons a ns)
  have "foldl max (max n a) ns \<in> set (max n a # ns)" by (rule Cons.IH)
  moreover have "max n a = n \<or> max n a = a" by (simp add: max_def)
  ultimately show ?case by auto
qed

lemma foldl_max_upper: "x \<in> set (n # ns) \<Longrightarrow> x \<le> foldl max (n :: int) ns"
proof (induction ns arbitrary: n x)
  case Nil
  then show ?case by simp
next
  case (Cons a ns)
  have start: "max n a \<le> foldl max (max n a) ns" by (rule Cons.IH) simp
  from Cons.prems have "x = n \<or> x = a \<or> x \<in> set ns" by auto
  then show ?case
  proof (elim disjE)
    assume "x = n"
    then show ?thesis using start by simp
  next
    assume "x = a"
    then show ?thesis using start by simp
  next
    assume "x \<in> set ns"
    then have "x \<le> foldl max (max n a) ns" by (intro Cons.IH) simp
    then show ?thesis by simp
  qed
qed

lemma experience_years_findall:
  "extract_experience_years text =
     (if findall_years 0 (py_lower text) = [] then 0
      else Max (py_int ` set (findall_years 0 (py_lower text))))"
proof (cases "findall_years 0 (py_lower text)")
  case Nil
  then show ?thesis by (simp add: extract_experience_years_def)
next
  case (Cons g gs)
  let ?n = "py_int g" and ?ns = "map py_int gs"
  have e: "extract_experience_years text = foldl max ?n ?ns"
    using Cons by (simp add: extract_experience_years_def)
  have "Max (set (?n # ?ns)) = foldl max ?n ?ns"
  proof (rule Max_eqI)
    show "finite (set (?n # ?ns))" by simp
    show "y \<le> foldl max ?n ?ns" if "y \<in> set (?n # ?ns)" for y
      using that by (rule foldl_max_upper)
    show "foldl max ?n ?ns \<in> set (?n # ?ns)" by (rule foldl_max_member)
  qed
  moreover have "py_int ` set (findall_years 0 (py_lower text)) = set (?n # ?ns)"
    using Cons by simp
  ultimately show ?thesis using e Cons by simp
qed

lemma findall_empty_iff: "(findall_years 0 s = []) = (matches_anywhere s = [])"
proof
  assume a: "findall_years 0 s = []"
  show "matches_anywhere s = []"
  proof (rule ccontr)
    assume "matches_anywhere s \<noteq> []"
    then obtain g where "g \<in> set (matches_anywhere s)" by (cases "matches_anywhere s") auto
    then have "\<exists>g' \<in> set (findall_years 0 s). py_int g \<le> py_int g'"
      by (rule findall_dominates)
    with a show False by simp
  qed
next
  assume a: "matches_anywhere s = []"
  show "findall_years 0 s = []"
  proof (rule ccontr)
    assume "findall_years 0 s \<noteq> []"
    then obtain g where "g \<in> set (findall_years 0 s)" by (cases "findall_years 0 s") auto
    then have "g \<in> set (matches_anywhere s)" by (rule findall_subset)
    with a show False by simp
  qed
qed

lemma findall_max_eq:
  assumes "matches_anywhere s \<noteq> []"
  shows "Max (py_int ` set (findall_years 0 s)) = Max (py_int ` set (matches_anywhere s))"
proof (rule antisym)
  have ne: "findall_years 0 s \<noteq> []" using assms by (simp add: findall_empty_iff)
  show "Max (py_int ` set (findall_years 0 s)) \<le> Max (py_int ` set (matches_anywhere s))"
  proof (rule Max_mono)
    show "py_int ` set (findall_years 0 s) \<subseteq> py_int ` set (matches_anywhere s)"
      using findall_subset by blast
    show "py_int ` set (findall_years 0 s) \<noteq> {}" using ne by simp
    show "finite (py_int ` set (matches_anywhere s))" by simp
  qed
  show "Max (py_int ` set (matches_anywhere s)) \<le> Max (py_int ` set (findall_years 0 s))"
  proof (rule Max.boundedI)
    show "finite (py_int ` set (matches_anywhere s))" by simp
    show "py_int ` set (matches_anywhere s) \<noteq> {}" using assms by simp
    fix a
    assume "a \<in> py_int ` set (matches_anywhere s)"
    then obtain g where g: "g \<in> set (matches_anywhere s)" "a = py_int g" by blast
    then obtain g' where g': "g' \<in> set (findall_years 0 s)" "py_int g \<le> py_int g'"
      using findall_dominates by blast
    have "py_int g' \<le> Max (py_int ` set (findall_years 0 s))"
      using g'(1) by (intro Max_ge) simp_all
    with g(2) g'(2) show "a \<le> Max (py_int ` set (findall_years 0 s))" by simp
  qed
qed

lemma normalize_skill_examples:
    "normalize_skill ''Python'' = ''python''" "normalize_skill ''react.js'' = ''reactjs''"
    "normalize_skill ''Go'' = ''go''" "normalize_skill ''React JS'' = ''reactjs''" "normalize_skill ''rust'' = ''rust''"
    "normalize_skill ''python'' = ''python''" 
  by (simp_all add: normalize_skill_def replace_char_def py_strip_def py_lower_def is_space_def lower_char_def upper_lower_table_def)

section \<open>The claims\<close>

subsection \<open>C2: the skill sub-score\<close>

text \<open>
  Claim C2. With no required skills the skill sub-score is exactly 0.5, with empty
  shared and complementary lists, whatever the subject's skills. Otherwise it is
  \<open>min(|shared| / |required| + min(|subject-only| * 0.05, 0.2), 1.0)\<close>, where the three
  sets are sets of normalised keys. Normalisation lower-cases, trims the surrounding
  whitespace and deletes every period, blank, hyphen and underscore; its result has no
  upper-case letter and none of the four characters.
\<close>

theorem C2_skill_overlap:
  "calculate_skill_overlap us [] = (0.5, [], [])
   \<and> (rs \<noteq> [] \<longrightarrow>
        fst (calculate_skill_overlap us rs) =
          min (real (card (normalize_skill ` set us \<inter> normalize_skill ` set rs))
                 / real (card (normalize_skill ` set rs))
               + min (real (card (normalize_skill ` set us - normalize_skill ` set rs)) * 0.05) 0.2)
              1.0)
   \<and> normalize_skill s = filter (\<lambda>c. c \<notin> set ''. -_'') (py_strip (py_lower s))
   \<and> (\<forall>c \<in> set (normalize_skill s).
          c \<notin> set ''ABCDEFGHIJKLMNOPQRSTUVWXYZ'' \<and> c \<notin> set ''. -_'')"
proof -
  have "calculate_skill_overlap us [] = (0.5, [], [])"
    by (simp add: calculate_skill_overlap_def)
  moreover have "rs \<noteq> [] \<longrightarrow>
        fst (calculate_skill_overlap us rs) =
          min (real (card (normalize_skill ` set us \<inter> normalize_skill ` set rs))
                 / real (card (normalize_skill ` set rs))
               + min (real (card (normalize_skill ` set us - normalize_skill ` set rs)) * 0.05) 0.2)
              1.0"
    using skill_overlap_score [of rs us] by simp
  moreover note normalize_skill_filter [of s]
  moreover have "\<forall>c \<in> set (normalize_skill s).
          c \<notin> set ''ABCDEFGHIJKLMNOPQRSTUVWXYZ'' \<and> c \<notin> set ''. -_''"
    using normalize_skill_chars by blast
  ultimately show ?thesis by blast
qed

theorem C2_skill_overlap_witness:
  "[''python'', ''React JS'', ''rust''] \<noteq> []
   \<and> fst (calculate_skill_overlap [''Python'', ''react.js'', ''Go''] [''python'', ''React JS'', ''rust'']) = 43 / 60
   \<and> calculate_skill_overlap [''Python''] [] = (0.5, [], [])
   \<and> normalize_skill '' Node.JS_x-y z '' = ''nodejsxyz''"
  using C2_skill_overlap [of "[''Python'', ''react.js'', ''Go'']" "[''python'', ''React JS'', ''rust'']" "'' Node.JS_x-y z ''"]
    C2_skill_overlap [of "[''Python'']" "[]" "[]"]
  by (simp add: py_strip_def py_lower_def is_space_def lower_char_def upper_lower_table_def normalize_skill_examples)

subsection \<open>C6: the extraction never fails and keeps its invariant\<close>

text \<open>
  Claim C6. \<open>extract_text_from_pdf\<close> is a total function of the environment and the
  bytes: every exception of a library, of a page or of the import is caught in the
  source and is a branch of the model, so a triple is returned for every input. The
  source tag is \<open>none\<close> exactly when the text is empty; an empty text comes with the note
  \<open>empty_input\<close> or \<open>no_text_extracted\<close>, a non-empty text with one of the four tags of
  the stages; empty input gives \<open>('', 'none', 'empty_input')\<close>.
\<close>

theorem C6_extraction_invariant:
  "(fst (snd (extract_text_from_pdf env b)) = ''none'') = (fst (extract_text_from_pdf env b) = [])
   \<and> (fst (extract_text_from_pdf env b) = [] \<longrightarrow>
        snd (snd (extract_text_from_pdf env b)) = Some ''empty_input''
        \<or> snd (snd (extract_text_from_pdf env b)) = Some ''no_text_extracted'')
   \<and> (fst (extract_text_from_pdf env b) \<noteq> [] \<longrightarrow>
        fst (snd (extract_text_from_pdf env b))
          \<in> {''pdfplumber'', ''PyPDF2'', ''pypdf_fallback'', ''text_fallback''})
   \<and> extract_text_from_pdf env [] = ([], ''none'', Some ''empty_input'')"
proof -
  obtain t s n where r: "extract_text_from_pdf env b = (t, s, n)"
    by (cases "extract_text_from_pdf env b") auto
  have "extract_text_from_pdf env [] = ([], ''none'', Some ''empty_input'')"
    by (simp add: extract_text_from_pdf_def)
  with extract_invariant [OF r] r show ?thesis by simp
qed

theorem C6_extraction_invariant_witness:
  "fst (extract_text_from_pdf env_primary_raises bytes30) = []
   \<and> fst (snd (extract_text_from_pdf env_primary_raises bytes30)) = ''none''
   \<and> (snd (snd (extract_text_from_pdf env_primary_raises bytes30)) = Some ''empty_input''
        \<or> snd (snd (extract_text_from_pdf env_primary_raises bytes30)) = Some ''no_text_extracted'')
   \<and> fst (extract_text_from_pdf env_primary_raises bytes31) \<noteq> []
   \<and> fst (snd (extract_text_from_pdf env_primary_raises bytes31)) \<noteq> ''none''"
  using C6_extraction_invariant [of env_primary_raises bytes30]
    C6_extraction_invariant [of env_primary_raises bytes31]
  by (simp add: extract_examples_text stage_examples)

subsection \<open>C3: the order of the fallback chain\<close>

text \<open>
  Claim C3, as amended. For non-empty input, truncated to the size limit: when
  pdfplumber yields text, that text is returned with the tag \<open>pdfplumber\<close>. Otherwise
  PyPDF2 runs only if it is the configured library (pdfplumber cannot be imported) or
  pdfplumber raised a structure error; when it runs and yields text, that text is
  returned with the tag \<open>PyPDF2\<close>, or \<open>pypdf_fallback\<close> after a structure error.
  Otherwise the stripped plain-text decode is returned with the tag \<open>text_fallback\<close>
  when it is longer than 30 characters, and \<open>('', 'none', 'no_text_extracted')\<close> when
  it is not. In particular, bytes that pdfplumber cannot read and whose stripped decode
  is longer than 30 characters give a non-empty text with a fallback tag.
\<close>

theorem C3_fallback_chain:
  "b \<noteq> [] \<longrightarrow>
     (primary_text env b \<noteq> [] \<longrightarrow>
        extract_text_from_pdf env b = (primary_text env b, ''pdfplumber'', None))
   \<and> (primary_text env b = [] \<and> secondary_runs env b \<and> secondary_text env b \<noteq> [] \<longrightarrow>
        fst (extract_text_from_pdf env b) = secondary_text env b
        \<and> fst (snd (extract_text_from_pdf env b))
            = (if structure_error env b then ''pypdf_fallback'' else ''PyPDF2''))
   \<and> (primary_text env b = [] \<and> \<not> (secondary_runs env b \<and> secondary_text env b \<noteq> [])
        \<and> length (plain_text env b) > 30 \<longrightarrow>
        fst (extract_text_from_pdf env b) = plain_text env b
        \<and> fst (snd (extract_text_from_pdf env b)) = ''text_fallback'')
   \<and> (primary_text env b = [] \<and> \<not> (secondary_runs env b \<and> secondary_text env b \<noteq> [])
        \<and> length (plain_text env b) \<le> 30 \<longrightarrow>
        extract_text_from_pdf env b = ([], ''none'', Some ''no_text_extracted''))
   \<and> (primary_text env b = [] \<and> length (plain_text env b) > 30 \<longrightarrow>
        fst (extract_text_from_pdf env b) \<noteq> []
        \<and> fst (snd (extract_text_from_pdf env b)) \<in> {''PyPDF2'', ''pypdf_fallback'', ''text_fallback''})"
proof
  assume b: "b \<noteq> []"
  have pos: "length (plain_text env b) > 30 \<Longrightarrow> plain_text env b \<noteq> []" by auto
  show "(primary_text env b \<noteq> [] \<longrightarrow>
        extract_text_from_pdf env b = (primary_text env b, ''pdfplumber'', None))
   \<and> (primary_text env b = [] \<and> secondary_runs env b \<and> secondary_text env b \<noteq> [] \<longrightarrow>
        fst (extract_text_from_pdf env b) = secondary_text env b
        \<and> fst (snd (extract_text_from_pdf env b))
            = (if structure_error env b then ''pypdf_fallback'' else ''PyPDF2''))
   \<and> (primary_text env b = [] \<and> \<not> (secondary_runs env b \<and> secondary_text env b \<noteq> [])
        \<and> length (plain_text env b) > 30 \<longrightarrow>
        fst (extract_text_from_pdf env b) = plain_text env b
        \<and> fst (snd (extract_text_from_pdf env b)) = ''text_fallback'')
   \<and> (primary_text env b = [] \<and> \<not> (secondary_runs env b \<and> secondary_text env b \<noteq> [])
        \<and> length (plain_text env b) \<le> 30 \<longrightarrow>
        extract_text_from_pdf env b = ([], ''none'', Some ''no_text_extracted''))
   \<and> (primary_text env b = [] \<and> length (plain_text env b) > 30 \<longrightarrow>
        fst (extract_text_from_pdf env b) \<noteq> []
        \<and> fst (snd (extract_text_from_pdf env b)) \<in> {''PyPDF2'', ''pypdf_fallback'', ''text_fallback''})"
    using pos by (simp add: extract_eq [OF b]) 
qed

theorem C3_fallback_chain_witness:
  "''%PDF-1.4'' \<noteq> [] \<and> bytes31 \<noteq> [] \<and> bytes30 \<noteq> []
   \<and> primary_text env_primary_ok ''%PDF-1.4'' \<noteq> []
   \<and> fst (snd (extract_text_from_pdf env_primary_ok ''%PDF-1.4'')) = ''pdfplumber''
   \<and> primary_text env_pdfminer_fails ''%PDF-1.4'' = []
   \<and> secondary_runs env_pdfminer_fails ''%PDF-1.4''
   \<and> secondary_text env_pdfminer_fails ''%PDF-1.4'' \<noteq> []
   \<and> fst (snd (extract_text_from_pdf env_pdfminer_fails ''%PDF-1.4'')) = ''pypdf_fallback''
   \<and> primary_text env_primary_raises bytes31 = []
   \<and> \<not> secondary_runs env_primary_raises bytes31
   \<and> length (plain_text env_primary_raises bytes31) > 30
   \<and> fst (snd (extract_text_from_pdf env_primary_raises bytes31)) = ''text_fallback''
   \<and> fst (extract_text_from_pdf env_primary_raises bytes31) = bytes31
   \<and> primary_text env_primary_raises bytes30 = []
   \<and> length (plain_text env_primary_raises bytes30) \<le> 30
   \<and> extract_text_from_pdf env_primary_raises bytes30 = ([], ''none'', Some ''no_text_extracted'')"
  using C3_fallback_chain [of "''%PDF-1.4''" env_primary_ok]
    C3_fallback_chain [of "''%PDF-1.4''" env_pdfminer_fails]
    C3_fallback_chain [of bytes31 env_primary_raises]
    C3_fallback_chain [of bytes30 env_primary_raises]
  by (simp add: stage_examples)

text \<open>
  The claim as it was stated fails twice. A document that pdfplumber cannot read and
  whose plain-text decode has exactly 30 characters gets the tag \<open>none\<close>, not a fallback
  tag. And when pdfplumber opens a document without finding text, PyPDF2 is not run
  although it would find text: the chain goes on to the plain-text decode.
\<close>

theorem C3_fallback_chain_counterexample:
  "primary_text env_primary_raises bytes30 = []
   \<and> length (plain_text env_primary_raises bytes30) = 30
   \<and> extract_text_from_pdf env_primary_raises bytes30 = ([], ''none'', Some ''no_text_extracted'')
   \<and> primary_text env_primary_empty ''%PDF-1.4'' = []
   \<and> secondary_text env_primary_empty ''%PDF-1.4'' = ''text found by the secondary decoder''
   \<and> extract_text_from_pdf env_primary_empty ''%PDF-1.4'' = ([], ''none'', Some ''no_text_extracted'')"
  by (simp add: stage_examples extract_examples)

subsection \<open>C5: no profile from too little text\<close>



subsection \<open>C1: the final score\<close>

text \<open>
  Claim C1. The score of a match is the weighted sum of the five sub-scores (skill
  overlap 0.45, embedding similarity 0.25, role match 0.15, experience fit 0.06,
  availability 0.04), plus the boost \<open>min(|shared_skills| * 0.02, 0.12)\<close>, clamped to
  the interval from 0 to 1; so the score always lies between 0 and 1. The shared
  skills of the boost are the list of shared skills that the skill overlap computes and
  the match reports; their number is the number of normalised keys that the subject's
  skills and the required skills have in common, and 0 when nothing is required. The
  embedding sub-score is the neutral 0.5 when either side has no embedding.
\<close>

theorem C1_final_score:
  "score (match_user_to_project u p) =
     max 0 (min 1
       (fst (calculate_skill_overlap (user_skills u) (required_skills p)) * 0.45
        + embedding_subscore u p * 0.25
        + fst (calculate_role_match (user_roles u) (required_roles p)) * 0.15
        + calculate_experience_fit (user_experience_years u) (min_experience p) (max_experience p)
            * 0.06
        + calculate_availability_score (user_timezone u) (project_timezone p) * 0.04
        + min (real (shared_key_count (user_skills u) (required_skills p)) * 0.02) 0.12))
   \<and> shared_skills (match_user_to_project u p)
       = fst (snd (calculate_skill_overlap (user_skills u) (required_skills p)))
   \<and> length (shared_skills (match_user_to_project u p))
       = shared_key_count (user_skills u) (required_skills p)
   \<and> 0 \<le> score (match_user_to_project u p)
   \<and> score (match_user_to_project u p) \<le> 1"
proof (intro conjI)
  show "score (match_user_to_project u p) =
     max 0 (min 1
       (fst (calculate_skill_overlap (user_skills u) (required_skills p)) * 0.45
        + embedding_subscore u p * 0.25
        + fst (calculate_role_match (user_roles u) (required_roles p)) * 0.15
        + calculate_experience_fit (user_experience_years u) (min_experience p) (max_experience p)
            * 0.06
        + calculate_availability_score (user_timezone u) (project_timezone p) * 0.04
        + min (real (shared_key_count (user_skills u) (required_skills p)) * 0.02) 0.12))"
    by (simp only: match_score_eq weighted_sum_eq shared_skills_count)
  show "shared_skills (match_user_to_project u p)
       = fst (snd (calculate_skill_overlap (user_skills u) (required_skills p)))"
    by (rule match_shared_eq)
  show "length (shared_skills (match_user_to_project u p))
       = shared_key_count (user_skills u) (required_skills p)"
    by (simp only: match_shared_eq shared_skills_count)
  show "0 \<le> score (match_user_to_project u p)" by (simp add: match_score_eq)
  show "score (match_user_to_project u p) \<le> 1" by (simp add: match_score_eq)
qed

theorem C1_final_score_witness:
  "score (match_user_to_project user_python project_python) = 0.845
   \<and> length (shared_skills (match_user_to_project user_python project_python)) = 1
   \<and> score (match_user_to_project user_six project_six) = 1
   \<and> length (shared_skills (match_user_to_project user_six project_six)) = 6
   \<and> score (match_user_to_project user_none project_six) = 0
   \<and> score (match_user_to_project user_python project_open) = 0.6"
proof -
  have a: "score (match_user_to_project user_python project_python) = 0.845"
    and a': "length (shared_skills (match_user_to_project user_python project_python)) = 1"
    using C1_final_score [of user_python project_python]
    by (simp_all add: example_fields match_example_subscores shared_key_count_examples
        role_examples)
  have b: "score (match_user_to_project user_six project_six) = 1"
    and b': "length (shared_skills (match_user_to_project user_six project_six)) = 6"
    using C1_final_score [of user_six project_six]
    by (simp_all add: example_fields match_example_subscores shared_key_count_examples
        role_examples)
  have c: "score (match_user_to_project user_none project_six) = 0"
    using C1_final_score [of user_none project_six]
    by (simp add: example_fields match_example_subscores shared_key_count_examples
        role_examples)
  have d: "score (match_user_to_project user_python project_open) = 0.6"
    using C1_final_score [of user_python project_open]
    by (simp add: user_python_def project_open_def calculate_skill_overlap_def
        shared_key_count_def embedding_subscore_def truthy_def calculate_role_match_def
        calculate_experience_fit_def calculate_availability_score_def)
  show ?thesis by (intro conjI a a' b b' c d)
qed

subsection \<open>C10: the hackathon weight is never applied\<close>

text \<open>
  Claim C10. The table \<open>WEIGHTS\<close> has a weight 0.05 for \<open>hackathon_bonus\<close>, and
  \<open>match_user_to_project\<close> never uses it: two subjects that agree on skills, embedding,
  roles, experience and timezone get the same match, whatever their achievement data.
  The five weights that are applied sum to 0.95, which is the weighted sum when all five
  sub-scores are 1, and the weighted sum of every subject and target is at most 0.95.
\<close>

theorem C10_hackathon_unused:
  "(user_skills u1 = user_skills u2 \<and> user_embedding u1 = user_embedding u2
      \<and> user_roles u1 = user_roles u2 \<and> user_experience_years u1 = user_experience_years u2
      \<and> user_timezone u1 = user_timezone u2
      \<longrightarrow> match_user_to_project u1 p = match_user_to_project u2 p)
   \<and> match_user_to_project (u\<lparr>user_hackathons := h\<rparr>) p = match_user_to_project u p
   \<and> hackathon_bonus WEIGHTS = 0.05
   \<and> skill_overlap WEIGHTS + embedding_similarity WEIGHTS + role_match WEIGHTS
        + experience_fit WEIGHTS + availability WEIGHTS = 0.95
   \<and> weighted_sum 1 1 1 1 1 = 0.95
   \<and> weighted_sum (fst (calculate_skill_overlap (user_skills u) (required_skills p)))
          (embedding_subscore u p)
          (fst (calculate_role_match (user_roles u) (required_roles p)))
          (calculate_experience_fit (user_experience_years u) (min_experience p) (max_experience p))
          (calculate_availability_score (user_timezone u) (project_timezone p))
        \<le> 0.95"
proof (intro conjI impI)
  assume "user_skills u1 = user_skills u2 \<and> user_embedding u1 = user_embedding u2
      \<and> user_roles u1 = user_roles u2 \<and> user_experience_years u1 = user_experience_years u2
      \<and> user_timezone u1 = user_timezone u2"
  then show "match_user_to_project u1 p = match_user_to_project u2 p"
    by (intro match_depends_on_five_fields) blast+
next
  show "match_user_to_project (u\<lparr>user_hackathons := h\<rparr>) p = match_user_to_project u p"
    by (rule match_ignores_hackathons)
next
  show "hackathon_bonus WEIGHTS = 0.05" by (rule weights_facts)
next
  show "skill_overlap WEIGHTS + embedding_similarity WEIGHTS + role_match WEIGHTS
        + experience_fit WEIGHTS + availability WEIGHTS = 0.95" by (rule weights_facts)
next
  show "weighted_sum 1 1 1 1 1 = 0.95" by (rule weighted_sum_ones)
next
  show "weighted_sum (fst (calculate_skill_overlap (user_skills u) (required_skills p)))
          (embedding_subscore u p)
          (fst (calculate_role_match (user_roles u) (required_roles p)))
          (calculate_experience_fit (user_experience_years u) (min_experience p) (max_experience p))
          (calculate_availability_score (user_timezone u) (project_timezone p))
        \<le> 0.95" by (rule match_weighted_sum_le)
qed

theorem C10_hackathon_unused_witness:
  "user_skills user_winner = user_skills user_python
   \<and> user_embedding user_winner = user_embedding user_python
   \<and> user_roles user_winner = user_roles user_python
   \<and> user_experience_years user_winner = user_experience_years user_python
   \<and> user_timezone user_winner = user_timezone user_python
   \<and> user_hackathons user_winner \<noteq> user_hackathons user_python
   \<and> match_user_to_project user_winner project_open = match_user_to_project user_python project_open"
  using C10_hackathon_unused [of user_winner user_python project_open]
  by (simp add: user_winner_fields)

subsection \<open>C9: the cosine similarity\<close>

text \<open>
  Claim C9, as amended. For two vectors of the same length \<open>cosine_similarity\<close> does
  not raise: it returns 0 when either vector has norm zero, which is the case exactly
  when all its components are zero, and otherwise the dot product divided by the
  product of the norms, which is not zero. Every value it returns lies between -1 and
  1. For vectors of different lengths \<open>np.dot\<close> raises \<open>ValueError\<close> before the norms
  are looked at.
\<close>

theorem C9_cosine_similarity:
  "(length a = length b \<longrightarrow>
      cosine_similarity a b =
        Inr (if np_linalg_norm a = 0 \<or> np_linalg_norm b = 0 then 0
             else dot_list a b / (np_linalg_norm a * np_linalg_norm b))
      \<and> (np_linalg_norm a \<noteq> 0 \<and> np_linalg_norm b \<noteq> 0
           \<longrightarrow> np_linalg_norm a * np_linalg_norm b \<noteq> 0))
   \<and> (np_linalg_norm v = 0) = (\<forall>x \<in> set v. x = 0)
   \<and> (cosine_similarity a b = Inr s \<longrightarrow> - 1 \<le> s \<and> s \<le> 1)
   \<and> (length a \<noteq> length b \<longrightarrow> cosine_similarity a b = Inl ValueError)"
proof (intro conjI impI)
  assume "length a = length b"
  then show "cosine_similarity a b =
        Inr (if np_linalg_norm a = 0 \<or> np_linalg_norm b = 0 then 0
             else dot_list a b / (np_linalg_norm a * np_linalg_norm b))"
    by (rule cosine_same_length)
next
  assume "np_linalg_norm a \<noteq> 0 \<and> np_linalg_norm b \<noteq> 0"
  then show "np_linalg_norm a * np_linalg_norm b \<noteq> 0" by simp
next
  show "(np_linalg_norm v = 0) = (\<forall>x \<in> set v. x = 0)" by (rule norm_zero_iff)
next
  assume "cosine_similarity a b = Inr s"
  then have "- 1 \<le> s \<and> s \<le> 1" by (rule cosine_bounds)
  then show "- 1 \<le> s" and "s \<le> 1" by blast+
next
  assume "length a \<noteq> length b"
  then show "cosine_similarity a b = Inl ValueError" by (rule cosine_mismatch)
qed

theorem C9_cosine_similarity_witness:
  "length [3, 4 :: real] = length [4, 3 :: real]
   \<and> cosine_similarity [3, 4] [4, 3] = Inr (24 / 25)
   \<and> length [0, 0 :: real] = length [1, 2 :: real]
   \<and> cosine_similarity [0, 0] [1, 2] = Inr 0"
  using C9_cosine_similarity [of "[3, 4]" "[4, 3]"] C9_cosine_similarity [of "[0, 0]" "[1, 2]"]
  by (simp add: norm_examples)

text \<open>
  The claim as it was stated fails for a zero vector paired with a vector of another
  length: the function raises instead of returning 0.
\<close>

theorem C9_cosine_similarity_counterexample:
  "np_linalg_norm [0, 0] = 0 \<and> cosine_similarity [0, 0] [1, 2, 3] = Inl ValueError"
  by (simp add: norm_examples cosine_similarity_def np_dot_def)

subsection \<open>C4: the ranking\<close>

text \<open>
  Claim C4. \<open>rank_candidates\<close> ranks the matches of the candidates. For a
  non-negative \<open>top_k\<close> the result has at most \<open>top_k\<close> elements: it is the first \<open>top_k\<close>
  of the complete ranking. The result consists of given matches and is ordered by score,
  highest first, and among equal scores by the number of shared skills, highest first:
  of two results with the same score the one with more shared skills stands first.
  Matches equal on both keys keep their encounter order: they appear in the result in
  the order of the input, and the complete ranking holds all of them. (A negative
  \<open>top_k\<close> is a Python slice bound counted from the end: none of the properties of the
  order is lost, but the length is then not bounded by \<open>top_k\<close>.)
\<close>

theorem C4_rank_candidates:
  "rank_candidates cs p top_k
     = rank_matches (map (\<lambda>c. match_user_to_project c p) cs) top_k
   \<and> (0 \<le> top_k \<longrightarrow>
         int (length (rank_matches ms top_k)) \<le> top_k
         \<and> length (rank_matches ms top_k) = min (nat top_k) (length ms)
         \<and> rank_matches ms top_k = take (nat top_k) (rank_matches ms (int (length ms))))
   \<and> set (rank_matches ms top_k) \<subseteq> set ms
   \<and> sorted_wrt ranks_before (rank_matches ms top_k)
   \<and> (\<forall>i j. i < length (rank_matches ms top_k) \<and> j < length (rank_matches ms top_k)
          \<and> score (rank_matches ms top_k ! i) = score (rank_matches ms top_k ! j)
          \<and> length (shared_skills (rank_matches ms top_k ! i))
              > length (shared_skills (rank_matches ms top_k ! j))
          \<longrightarrow> i < j)
   \<and> filter (\<lambda>m. score m = s \<and> length (shared_skills m) = n) (rank_matches ms top_k)
       = take (length (filter (\<lambda>m. score m = s \<and> length (shared_skills m) = n)
                         (rank_matches ms top_k)))
           (filter (\<lambda>m. score m = s \<and> length (shared_skills m) = n) ms)
   \<and> filter (\<lambda>m. score m = s \<and> length (shared_skills m) = n)
         (rank_matches ms (int (length ms)))
       = filter (\<lambda>m. score m = s \<and> length (shared_skills m) = n) ms"
proof (intro conjI impI allI)
  show "rank_candidates cs p top_k
     = rank_matches (map (\<lambda>c. match_user_to_project c p) cs) top_k"
    by (simp add: rank_candidates_def)
next
  assume k: "0 \<le> top_k"
  then show "length (rank_matches ms top_k) = min (nat top_k) (length ms)"
    by (rule rank_matches_length)
  then show "int (length (rank_matches ms top_k)) \<le> top_k" using k by simp
  show "rank_matches ms top_k = take (nat top_k) (rank_matches ms (int (length ms)))"
    using k by (rule rank_matches_prefix)
next
  show "set (rank_matches ms top_k) \<subseteq> set ms" by (rule rank_matches_subset)
next
  show "sorted_wrt ranks_before (rank_matches ms top_k)" by (rule rank_matches_sorted)
next
  fix i j
  let ?R = "rank_matches ms top_k"
  assume a: "i < length ?R \<and> j < length ?R \<and> score (?R ! i) = score (?R ! j)
      \<and> length (shared_skills (?R ! i)) > length (shared_skills (?R ! j))"
  show "i < j"
  proof (rule ccontr)
    assume "\<not> i < j"
    moreover from a have "i \<noteq> j" by auto
    ultimately have "j < i" by simp
    with a have "ranks_before (?R ! j) (?R ! i)"
      using rank_matches_sorted [of ms top_k] by (simp add: sorted_wrt_nth_less)
    with a show False by (simp add: ranks_before_def)
  qed
next
  show "filter (\<lambda>m. score m = s \<and> length (shared_skills m) = n) (rank_matches ms top_k)
       = take (length (filter (\<lambda>m. score m = s \<and> length (shared_skills m) = n)
                         (rank_matches ms top_k)))
           (filter (\<lambda>m. score m = s \<and> length (shared_skills m) = n) ms)"
    by (rule rank_matches_stable)
next
  have "filter (\<lambda>m. rank_key m = (s, n)) (py_sort_reverse rank_key ms)
          = filter (\<lambda>m. rank_key m = (s, n)) ms"
    by (rule py_sort_reverse_stable)
  then show "filter (\<lambda>m. score m = s \<and> length (shared_skills m) = n)
         (rank_matches ms (int (length ms)))
       = filter (\<lambda>m. score m = s \<and> length (shared_skills m) = n) ms"
    by (simp only: rank_matches_all rank_key_eq_iff)
qed

theorem C4_rank_candidates_witness:
  "(0::int) \<le> 2
   \<and> int (length (rank_matches [match_one, match_three, match_one_again] 2)) \<le> 2
   \<and> sorted_wrt ranks_before (rank_matches [match_one, match_three, match_one_again] 2)
   \<and> rank_matches [match_one, match_three, match_one_again] 2 = [match_three, match_one]
   \<and> score match_three = score match_one
   \<and> length (shared_skills match_three) > length (shared_skills match_one)
   \<and> rank_matches [match_one, match_three, match_one_again] 3
       = [match_three, match_one, match_one_again]"
proof -
  have k: "(0::int) \<le> 2" by simp
  have len: "int (length (rank_matches [match_one, match_three, match_one_again] 2)) \<le> 2"
    using C4_rank_candidates
            [of "[]" project_open 2 "[match_one, match_three, match_one_again]" "0.8" 1] k
    by blast
  have srt: "sorted_wrt ranks_before (rank_matches [match_one, match_three, match_one_again] 2)"
    using C4_rank_candidates
            [of "[]" project_open 2 "[match_one, match_three, match_one_again]" "0.8" 1]
    by blast
  have sc: "score match_three = score match_one"
    by (simp add: match_three_def match_one_def)
  have sh: "length (shared_skills match_three) > length (shared_skills match_one)"
    by (simp add: match_three_def match_one_def)
  show ?thesis
    by (intro conjI k len srt sc sh rank_examples)
qed

subsection \<open>C7: the achievement signal\<close>

text \<open>
  What the loop of \<open>extract_hackathon_wins\<close> computes, in closed form. A hit is one of
  the five competition keywords that occurs in the lower-cased text, counted once, at
  its first occurrence. The window is cut from the text as it is written, from 120
  characters before the occurrence to 120 characters after its start, and the placement
  words are searched in that window between word boundaries, in lower case only.
\<close>

lemma hackathon_wins_closed_form:
  "total_hackathons (extract_hackathon_wins text) = length (keyword_hits text)
   \<and> achievements (extract_hackathon_wins text)
       = map (keyword_achievement text) (keyword_hits text)
   \<and> wins_breakdown (extract_hackathon_wins text) p
       = length (filter (\<lambda>kw. keyword_placement text kw = p) (keyword_hits text))
   \<and> wins_breakdown (extract_hackathon_wins text) Finalist = 0
   \<and> hackathon_score (extract_hackathon_wins text)
       = 10 * wins_breakdown (extract_hackathon_wins text) First
         + 7 * wins_breakdown (extract_hackathon_wins text) Second
         + 5 * wins_breakdown (extract_hackathon_wins text) Third
         + 3 * wins_breakdown (extract_hackathon_wins text) Finalist
         + 1 * wins_breakdown (extract_hackathon_wins text) Participant
   \<and> has_hackathon_experience (extract_hackathon_wins text)
       = (total_hackathons (extract_hackathon_wins text) > 0)
   \<and> (kw \<in> set (keyword_hits text))
       = (kw \<in> set HACKATHON_KEYWORDS \<and> py_in kw (py_lower text))
   \<and> (py_find (py_lower text) kw = Some idx \<longrightarrow>
         keyword_window text kw
           = map ((!) text) [idx - 120..<min (length text) (idx + 120)])
   \<and> keyword_placement text kw =
       (if occurs_as_word [''winner'', ''1st'', ''first'', ''champion'', ''gold'']
             (keyword_window text kw) then First
        else if occurs_as_word [''runner up'', ''runner-up'', ''2nd'', ''second'', ''silver'']
             (keyword_window text kw) then Second
        else if occurs_as_word [''3rd'', ''third'', ''bronze''] (keyword_window text kw)
        then Third
        else Participant)"
proof (intro conjI impI)
  show "total_hackathons (extract_hackathon_wins text) = length (keyword_hits text)"
    by (simp add: extract_hackathon_wins_eq)
  show "achievements (extract_hackathon_wins text)
       = map (keyword_achievement text) (keyword_hits text)"
    by (simp add: extract_hackathon_wins_eq)
  show "wins_breakdown (extract_hackathon_wins text) p
       = length (filter (\<lambda>kw. keyword_placement text kw = p) (keyword_hits text))"
    by (simp add: extract_hackathon_wins_eq)
  show "wins_breakdown (extract_hackathon_wins text) Finalist = 0"
    by (simp add: extract_hackathon_wins_eq no_finalist)
  show "hackathon_score (extract_hackathon_wins text)
       = 10 * wins_breakdown (extract_hackathon_wins text) First
         + 7 * wins_breakdown (extract_hackathon_wins text) Second
         + 5 * wins_breakdown (extract_hackathon_wins text) Third
         + 3 * wins_breakdown (extract_hackathon_wins text) Finalist
         + 1 * wins_breakdown (extract_hackathon_wins text) Participant"
    by (simp add: extract_hackathon_wins_eq)
  show "has_hackathon_experience (extract_hackathon_wins text)
       = (total_hackathons (extract_hackathon_wins text) > 0)"
    by (simp add: extract_hackathon_wins_eq)
  show "(kw \<in> set (keyword_hits text))
       = (kw \<in> set HACKATHON_KEYWORDS \<and> py_in kw (py_lower text))"
    by (simp add: keyword_hits_def)
  show "keyword_placement text kw =
       (if occurs_as_word [''winner'', ''1st'', ''first'', ''champion'', ''gold'']
             (keyword_window text kw) then First
        else if occurs_as_word [''runner up'', ''runner-up'', ''2nd'', ''second'', ''silver'']
             (keyword_window text kw) then Second
        else if occurs_as_word [''3rd'', ''third'', ''bronze''] (keyword_window text kw)
        then Third
        else Participant)"
    by (simp only: keyword_placement_def classify_snippet_def re_search_words_iff)
next
  assume "py_find (py_lower text) kw = Some idx"
  then show "keyword_window text kw
           = map ((!) text) [idx - 120..<min (length text) (idx + 120)]"
    by (simp add: keyword_window_def snippet_at_nth)
qed

text \<open>
  Claim C7 says that a placement keyword in the window of a hit gives its tier. The
  code does not do that when the keyword is capitalised: the competition keyword is
  found in the lower-cased text, but the placement words are searched in the window of
  the original text without ignoring case. For the text \<open>Winner of the Hackathon\<close> the
  one hit is counted as a participant, with no first place and the score 1; for the
  same text in lower case it is a first place with the score 10. The tally, the score
  formula and the flag are as claimed.
\<close>

theorem C7_placement_case_slip:
  "total_hackathons (extract_hackathon_wins ''Winner of the Hackathon'') = 1
   \<and> map snippet_context (achievements (extract_hackathon_wins ''Winner of the Hackathon''))
       = [''Winner of the Hackathon'']
   \<and> map placement (achievements (extract_hackathon_wins ''Winner of the Hackathon''))
       = [Participant]
   \<and> wins_breakdown (extract_hackathon_wins ''Winner of the Hackathon'') First = 0
   \<and> wins_breakdown (extract_hackathon_wins ''Winner of the Hackathon'') Participant = 1
   \<and> hackathon_score (extract_hackathon_wins ''Winner of the Hackathon'') = 1
   \<and> has_hackathon_experience (extract_hackathon_wins ''Winner of the Hackathon'')
   \<and> map placement (achievements (extract_hackathon_wins ''winner of the hackathon''))
       = [First]
   \<and> wins_breakdown (extract_hackathon_wins ''winner of the hackathon'') First = 1
   \<and> hackathon_score (extract_hackathon_wins ''winner of the hackathon'') = 10"
  by (simp add: extract_hackathon_wins_eq winner_examples
      [unfolded text_winner_def text_winner_lower_def])

subsection \<open>C8: the years of experience\<close>

text \<open>
  Claim C8. \<open>extract_experience_years\<close> returns 0 when the pattern matches nowhere in
  the lower-cased text, and otherwise the greatest number captured by a match of the
  pattern at any position of the text. \<open>re.findall\<close> collects only matches that do
  not overlap, from left to right; it finds a match exactly when there is one, every
  match it collects is a match of the pattern, and a match it skips because it overlaps
  an earlier one captures no greater number, so its maximum is the maximum over all
  matches. The text of scenario A yields 5.
\<close>

theorem C8_experience_years:
  "(matches_anywhere (py_lower text) = [] \<longrightarrow> extract_experience_years text = 0)
   \<and> (matches_anywhere (py_lower text) \<noteq> [] \<longrightarrow>
        extract_experience_years text
          = Max (py_int ` set (matches_anywhere (py_lower text))))
   \<and> (findall_years 0 (py_lower text) = []) = (matches_anywhere (py_lower text) = [])
   \<and> (findall_years 0 (py_lower text) \<noteq> [] \<longrightarrow>
        extract_experience_years text
          = Max (py_int ` set (findall_years 0 (py_lower text))))
   \<and> set (findall_years 0 (py_lower text)) \<subseteq> set (matches_anywhere (py_lower text))
   \<and> extract_experience_years ''5 years of experience... 3 years of experience'' = 5"
proof (intro conjI impI)
  assume "matches_anywhere (py_lower text) = []"
  then show "extract_experience_years text = 0"
    by (simp add: experience_years_findall findall_empty_iff)
next
  assume a: "matches_anywhere (py_lower text) \<noteq> []"
  then have "findall_years 0 (py_lower text) \<noteq> []" by (simp add: findall_empty_iff)
  then have "extract_experience_years text
      = Max (py_int ` set (findall_years 0 (py_lower text)))"
    by (simp add: experience_years_findall)
  then show "extract_experience_years text
      = Max (py_int ` set (matches_anywhere (py_lower text)))"
    using findall_max_eq [OF a] by simp
next
  show "(findall_years 0 (py_lower text) = []) = (matches_anywhere (py_lower text) = [])"
    by (rule findall_empty_iff)
next
  assume "findall_years 0 (py_lower text) \<noteq> []"
  then show "extract_experience_years text
      = Max (py_int ` set (findall_years 0 (py_lower text)))"
    by (simp add: experience_years_findall)
next
  show "set (findall_years 0 (py_lower text)) \<subseteq> set (matches_anywhere (py_lower text))"
    using findall_subset by blast
next
  have "extract_experience_years text_scenario_a = 5"
    by (simp add: experience_years_findall scenario_a_examples)
  then show "extract_experience_years ''5 years of experience... 3 years of experience'' = 5"
    by (simp only: text_scenario_a_def)
qed

theorem C8_experience_years_witness:
  "matches_anywhere (py_lower text_scenario_a) \<noteq> []
   \<and> extract_experience_years text_scenario_a = 5
   \<and> matches_anywhere (py_lower ''ten years of experience'') = []
   \<and> extract_experience_years ''ten years of experience'' = 0"
proof -
  have n: "matches_anywhere (py_lower text_scenario_a) \<noteq> []"
    by (simp add: scenario_a_examples)
  have "extract_experience_years text_scenario_a
      = Max (py_int ` set (matches_anywhere (py_lower text_scenario_a)))"
    using C8_experience_years [of text_scenario_a] n by blast
  then have a: "extract_experience_years text_scenario_a = 5"
    by (simp add: scenario_a_examples)
  have e: "matches_anywhere (py_lower ''ten years of experience'') = []"
    by (rule scenario_a_examples)
  have z: "extract_experience_years ''ten years of experience'' = 0"
    using C8_experience_years [of "''ten years of experience''"] e by blast
  show ?thesis by (intro conjI n a e z)
qed

end
